theory Spec2Isabelle
  imports Complex_Main
begin

section \<open>Python values and failures\<close>

text \<open>
  The two source files are \<^verbatim>\<open>baselines/abstract_recommender.py\<close> (class
  \<^verbatim>\<open>SequentialRecommender\<close>) and \<^verbatim>\<open>baselines/sasrecn.py\<close> (class \<^verbatim>\<open>SASRecN\<close>).
  Python integers are \<^typ>\<open>int\<close>; Python and torch floats are idealised as \<^typ>\<open>real\<close>
  (no rounding error, no overflow, no NaN). Every exception the modelled lines can raise
  is a value of \<open>error\<close>, returned as \<open>Inl\<close>.
\<close>

datatype error =
    AttributeError
  | IndexError
  | ValueError
  | ZeroDivisionError
  | NotImplementedError
  | RuntimeError

text \<open>Sequencing of statements that may raise: the first exception ends the run.\<close>

definition and_then :: "error + 'a \<Rightarrow> ('a \<Rightarrow> error + 'b) \<Rightarrow> error + 'b" where
  "and_then m f = (case m of Inl e \<Rightarrow> Inl e | Inr x \<Rightarrow> f x)"

text \<open>
  \<^verbatim>\<open>round(x)\<close> on a float: the nearest integer, a tie going to the even neighbour.
\<close>

definition py_round :: "real \<Rightarrow> int" where
  "py_round x =
     (let f = \<lfloor>x\<rfloor>; r = x - of_int f
      in if r < 1 / 2 then f
         else if 1 / 2 < r then f + 1
         else if even f then f else f + 1)"

text \<open>\<^verbatim>\<open>int(x)\<close> on a float truncates towards zero.\<close>

definition py_int :: "real \<Rightarrow> int" where
  "py_int x = (if 0 \<le> x then \<lfloor>x\<rfloor> else \<lceil>x\<rceil>)"

text \<open>
  Subscription \<^verbatim>\<open>xs[i]\<close> of a Python list: positions \<open>0 .. len - 1\<close> are read
  directly, positions \<open>-len .. -1\<close> are read from the end, anything else raises.
\<close>

definition py_getitem :: "'a list \<Rightarrow> int \<Rightarrow> error + 'a" where
  "py_getitem xs i =
     (if 0 \<le> i \<and> i < int (length xs) then Inr (xs ! nat i)
      else if i < 0 \<and> - int (length xs) \<le> i then Inr (xs ! nat (int (length xs) + i))
      else Inl IndexError)"

text \<open>\<^verbatim>\<open>max(xs)\<close> raises ValueError on an empty sequence.\<close>

fun py_max :: "int list \<Rightarrow> error + int" where
  "py_max [] = Inl ValueError"
| "py_max (x # xs) = Inr (fold max xs x)"

text \<open>\<^verbatim>\<open>math.log(v)\<close> raises ValueError (math domain error) unless \<open>v\<close> is positive.\<close>

definition py_log :: "int \<Rightarrow> error + real" where
  "py_log v = (if v \<le> 0 then Inl ValueError else Inr (ln (real_of_int v)))"

text \<open>\<^verbatim>\<open>a / b\<close>, true division.\<close>

definition py_truediv :: "real \<Rightarrow> real \<Rightarrow> error + real" where
  "py_truediv a b = (if b = 0 then Inl ZeroDivisionError else Inr (a / b))"

text \<open>
  \<^verbatim>\<open>np.argsort(label)\<close>: the indices that sort the list ascending. numpy leaves the
  order of equal keys to the sorting algorithm; here equal keys keep their index order.
\<close>

definition argsort :: "int list \<Rightarrow> nat list" where
  "argsort xs = sort_key (\<lambda>i. xs ! i) [0..<length xs]"


section \<open>Popularity labels: \<^verbatim>\<open>SequentialRecommender.cal_popular\<close>\<close>

text \<open>
  Lines 182 to 186 of \<^verbatim>\<open>abstract_recommender.py\<close>: the counts of the items
  \<open>0 .. n_items - 1\<close>, each raised to at least 1. \<open>item_cnt\<close> is a
  \<^verbatim>\<open>collections.Counter\<close>: every key has a count, a missing one has 0;
  \<open>counter_of xs\<close> is the counter that holds the counts \<open>xs\<close> of the items
  \<open>0 .. length xs - 1\<close>.
\<close>

definition counter_of :: "int list \<Rightarrow> nat \<Rightarrow> int" where
  "counter_of xs item_k = (if item_k < length xs then xs ! item_k else 0)"

definition clamped_counts :: "nat \<Rightarrow> (nat \<Rightarrow> int) \<Rightarrow> int list" where
  "clamped_counts n_items item_cnt = map (\<lambda>item_k. max (item_cnt item_k) 1) [0..<n_items]"

text \<open>
  The body of the loop of lines 193 to 199 for item \<open>i\<close> with clamped count \<open>v\<close>:
  the logarithm is taken first, whatever the strategy, and is replaced under
  \<^verbatim>\<open>'avg'\<close> and \<^verbatim>\<open>'arg'\<close>.
\<close>

definition popular_label ::
  "string \<Rightarrow> nat \<Rightarrow> int \<Rightarrow> nat list \<Rightarrow> nat \<Rightarrow> int \<Rightarrow> error + int" where
  "popular_label label_strategy label_count max_pop lidx i v =
     and_then (py_log v) (\<lambda>lg.
       if label_strategy = ''avg'' then
         and_then (py_truediv (real label_count * real_of_int v) (real_of_int max_pop))
           (\<lambda>r. Inr (py_round r))
       else if label_strategy = ''arg'' then
         and_then (py_getitem lidx (int i)) (\<lambda>li.
         and_then (py_truediv (real label_count * real li) (real (length lidx)))
           (\<lambda>r. Inr (py_round r)))
       else Inr (py_round lg))"

text \<open>The loop itself, appending to \<^verbatim>\<open>self.label\<close> until an exception ends it.\<close>

fun label_loop :: "(nat \<Rightarrow> int \<Rightarrow> error + int) \<Rightarrow> (nat \<times> int) list \<Rightarrow> int list \<Rightarrow> error + int list" where
  "label_loop body [] acc = Inr acc"
| "label_loop body ((i, v) # rest) acc =
     (case body i v of Inl e \<Rightarrow> Inl e | Inr nv \<Rightarrow> label_loop body rest (acc @ [nv]))"

text \<open>
  \<^verbatim>\<open>cal_popular\<close>, returning the new value of \<^verbatim>\<open>self.label\<close>. The closing
  \<^verbatim>\<open>print\<close> evaluates \<^verbatim>\<open>max(self.label)\<close>.
\<close>

definition cal_popular :: "string \<Rightarrow> nat \<Rightarrow> nat \<Rightarrow> (nat \<Rightarrow> int) \<Rightarrow> error + int list" where
  "cal_popular label_strategy label_count n_items item_cnt =
     (let label = clamped_counts n_items item_cnt in
      and_then (py_max label) (\<lambda>max_pop.
        let lidx = argsort label in
        and_then
          (label_loop (popular_label label_strategy label_count max_pop lidx)
             (List.enumerate 0 label) [])
          (\<lambda>new_label. and_then (py_max new_label) (\<lambda>_. Inr new_label))))"

text \<open>
  The reading of the \<^verbatim>\<open>arg\<close> strategy in the specification: the rank of item
  \<open>i\<close> is its position in the ascending order of the clamped counts, that is the
  position at which \<open>i\<close> occurs in the argsort.
\<close>

definition rank_of :: "int list \<Rightarrow> nat \<Rightarrow> nat" where
  "rank_of xs i = length (takeWhile (\<lambda>j. j \<noteq> i) (argsort xs))"

definition spec_arg_label :: "nat \<Rightarrow> int list \<Rightarrow> nat \<Rightarrow> int" where
  "spec_arg_label label_count xs i =
     py_round (real label_count * real (rank_of xs i) / real (length xs))"


section \<open>Bias partition: \<^verbatim>\<open>SequentialRecommender.calcualte_bias_label\<close>\<close>

text \<open>
  The state of the loop of lines 264 to 274: \<^verbatim>\<open>self.bias_label\<close>,
  \<^verbatim>\<open>self.bias_idx\<close>, \<^verbatim>\<open>bias_cnt\<close> and \<^verbatim>\<open>nobias_cnt\<close>.
\<close>

record bias_state =
  bias_label :: "int list"
  bias_idx :: "nat list"
  bias_cnt :: int
  nobias_cnt :: int

fun bias_loop :: "int \<Rightarrow> int \<Rightarrow> int \<Rightarrow> (nat \<times> int) list \<Rightarrow> bias_state \<Rightarrow> bias_state" where
  "bias_loop bias_line nobias_line mid_i [] st = st"
| "bias_loop bias_line nobias_line mid_i ((i, v) # rest) st =
     (if v \<ge> bias_line then
        bias_loop bias_line nobias_line mid_i rest
          (st\<lparr>bias_label := bias_label st @ [1], bias_idx := bias_idx st @ [i],
              bias_cnt := bias_cnt st + 1\<rparr>)
      else if v \<le> nobias_line then
        (if mid_i < nobias_cnt st then bias_loop bias_line nobias_line mid_i rest st
         else bias_loop bias_line nobias_line mid_i rest
          (st\<lparr>bias_label := bias_label st @ [0], bias_idx := bias_idx st @ [i],
              nobias_cnt := nobias_cnt st + 1\<rparr>))
      else bias_loop bias_line nobias_line mid_i rest st)"

text \<open>
  \<^verbatim>\<open>calcualte_bias_label\<close>; \<open>b_ratio\<close> is \<^verbatim>\<open>self.b_ratio\<close>. The result
  carries the two thresholds the method prints, then the final loop state.
\<close>

definition calcualte_bias_label ::
  "nat \<Rightarrow> (nat \<Rightarrow> int) \<Rightarrow> real \<Rightarrow> error + (int \<times> int \<times> bias_state)" where
  "calcualte_bias_label n_items item_cnt b_ratio =
     (let bias = clamped_counts n_items item_cnt;
          bias_bak = sort bias;
          mid_i = py_int (real (length bias_bak) * b_ratio)
      in and_then (py_getitem bias_bak (- mid_i)) (\<lambda>bias_line.
         and_then (py_getitem bias_bak mid_i) (\<lambda>nobias_line.
           Inr (bias_line, nobias_line,
                bias_loop bias_line nobias_line mid_i (List.enumerate 0 bias)
                  \<lparr>bias_label = [], bias_idx = [], bias_cnt = 0, nobias_cnt = 0\<rparr>))))"


section \<open>Tensors\<close>

text \<open>
  A tensor is its shape and its elements, read by a list of indices, one per dimension.
  Only the torch operations that \<^verbatim>\<open>sasrecn.py\<close> applies are modelled, with
  torch's broadcasting: shapes are aligned at their last dimension, and two sizes are
  compatible when they are equal or one of them is 1.
\<close>

datatype 'a tensor = Tensor (shape: "nat list") (elem: "nat list \<Rightarrow> 'a")

fun broadcast_rev :: "nat list \<Rightarrow> nat list \<Rightarrow> nat list option" where
  "broadcast_rev [] ys = Some ys"
| "broadcast_rev (x # xs) [] = Some (x # xs)"
| "broadcast_rev (x # xs) (y # ys) =
     (if x = y \<or> y = 1 then map_option ((#) x) (broadcast_rev xs ys)
      else if x = 1 then map_option ((#) y) (broadcast_rev xs ys)
      else None)"

definition broadcast_shapes :: "nat list \<Rightarrow> nat list \<Rightarrow> nat list option" where
  "broadcast_shapes s1 s2 = map_option rev (broadcast_rev (rev s1) (rev s2))"

text \<open>
  The index at which an operand of shape \<open>s\<close> is read for the index \<open>idx\<close> of the
  broadcast result: its own trailing dimensions, a dimension of size 1 read at 0.
\<close>

definition operand_index :: "nat list \<Rightarrow> nat list \<Rightarrow> nat list" where
  "operand_index s idx =
     map2 (\<lambda>d i. if d = 1 then 0 else i) s (drop (length idx - length s) idx)"

text \<open>An elementwise binary operator of torch (\<^verbatim>\<open>*\<close>, \<^verbatim>\<open>-\<close>, \<^verbatim>\<open>+\<close>).\<close>

definition tbin :: "('a \<Rightarrow> 'a \<Rightarrow> 'a) \<Rightarrow> 'a tensor \<Rightarrow> 'a tensor \<Rightarrow> error + 'a tensor" where
  "tbin f a b =
     (case broadcast_shapes (shape a) (shape b) of
        None \<Rightarrow> Inl RuntimeError
      | Some s \<Rightarrow> Inr (Tensor s (\<lambda>idx. f (elem a (operand_index (shape a) idx))
                                       (elem b (operand_index (shape b) idx)))))"

definition tmap :: "('a \<Rightarrow> 'a) \<Rightarrow> 'a tensor \<Rightarrow> 'a tensor" where
  "tmap f t = Tensor (shape t) (\<lambda>idx. f (elem t idx))"

text \<open>\<^verbatim>\<open>t.squeeze()\<close> removes every dimension of size 1.\<close>

fun squeeze_index :: "nat list \<Rightarrow> nat list \<Rightarrow> nat list" where
  "squeeze_index [] idx = []"
| "squeeze_index (d # ds) idx =
     (if d = 1 then 0 # squeeze_index ds idx
      else (case idx of [] \<Rightarrow> [] | i # rest \<Rightarrow> i # squeeze_index ds rest))"

definition squeeze :: "'a tensor \<Rightarrow> 'a tensor" where
  "squeeze t = Tensor (filter (\<lambda>d. d \<noteq> 1) (shape t)) (\<lambda>idx. elem t (squeeze_index (shape t) idx))"

text \<open>
  \<^verbatim>\<open>t.unsqueeze(d)\<close> inserts a dimension of size 1 at position \<open>d\<close>, and raises
  IndexError when \<open>d\<close> exceeds the number of dimensions.
\<close>

definition unsqueeze :: "nat \<Rightarrow> 'a tensor \<Rightarrow> error + 'a tensor" where
  "unsqueeze d t =
     (if d \<le> length (shape t)
      then Inr (Tensor (take d (shape t) @ 1 # drop d (shape t))
                  (\<lambda>idx. elem t (take d idx @ drop (Suc d) idx)))
      else Inl IndexError)"

text \<open>
  The operands of the following operations are matrices in every call of the source;
  another number of dimensions is reported as an error.
\<close>

definition transpose01 :: "'a tensor \<Rightarrow> error + 'a tensor" where
  "transpose01 t =
     (case shape t of
        [m, n] \<Rightarrow> Inr (Tensor [n, m] (\<lambda>idx. elem t [idx ! 1, idx ! 0]))
      | _ \<Rightarrow> Inl IndexError)"

definition matmul :: "real tensor \<Rightarrow> real tensor \<Rightarrow> error + real tensor" where
  "matmul a b =
     (case (shape a, shape b) of
        ([m, k], [k', n]) \<Rightarrow>
          if k = k'
          then Inr (Tensor [m, n]
                 (\<lambda>idx. \<Sum>l\<leftarrow>[0..<k]. elem a [idx ! 0, l] * elem b [l, idx ! 1]))
          else Inl RuntimeError
      | _ \<Rightarrow> Inl RuntimeError)"

text \<open>\<^verbatim>\<open>t.sum(dim=1)\<close> of a matrix.\<close>

definition sum_dim1 :: "real tensor \<Rightarrow> error + real tensor" where
  "sum_dim1 t =
     (case shape t of
        [m, k] \<Rightarrow> Inr (Tensor [m] (\<lambda>idx. \<Sum>l\<leftarrow>[0..<k]. elem t [idx ! 0, l]))
      | _ \<Rightarrow> Inl IndexError)"

text \<open>
  \<^verbatim>\<open>nn.Embedding\<close> applied to a vector of item ids: the rows of the weight matrix
  with these ids.
\<close>

definition embedding :: "real tensor \<Rightarrow> nat list \<Rightarrow> error + real tensor" where
  "embedding w items =
     (case shape w of
        [n, h] \<Rightarrow>
          if list_all (\<lambda>i. i < n) items
          then Inr (Tensor [length items, h] (\<lambda>idx. elem w [items ! (idx ! 0), idx ! 1]))
          else Inl IndexError
      | _ \<Rightarrow> Inl RuntimeError)"

text \<open>\<^verbatim>\<open>nn.Linear\<close>: \<open>x\<close> times the transposed weight, plus the bias.\<close>

definition linear :: "real tensor \<Rightarrow> real tensor \<Rightarrow> real tensor \<Rightarrow> error + real tensor" where
  "linear w b x =
     and_then (transpose01 w) (\<lambda>wt.
     and_then (matmul x wt) (\<lambda>y. tbin (+) y b))"

definition sigmoid :: "real \<Rightarrow> real" where
  "sigmoid x = 1 / (1 + exp (- x))"

text \<open>
  \<^verbatim>\<open>scores.topk(k)[1]\<close> of a matrix: for every row, the positions of \<open>k\<close> largest
  elements, largest first; RuntimeError when a row has fewer than \<open>k\<close> elements.
  Which of several equal elements torch selects is not specified, so the selection on one
  row is a parameter \<open>select\<close>. \<open>is_topk k row idxs\<close> is what every selection
  satisfies: \<open>k\<close> distinct positions of the row, each element at least the ones
  selected after it, and no position left out holds more than a selected one.
\<close>

definition is_topk :: "nat \<Rightarrow> real list \<Rightarrow> nat list \<Rightarrow> bool" where
  "is_topk k row idxs \<longleftrightarrow>
     length idxs = k \<and> distinct idxs \<and> list_all (\<lambda>j. j < length row) idxs
     \<and> sorted_wrt (\<lambda>a b. row ! a \<ge> row ! b) idxs
     \<and> list_all (\<lambda>j'. j' \<in> set idxs \<or> list_all (\<lambda>j. row ! j' \<le> row ! j) idxs)
           [0..<length row]"

definition topk_indices ::
  "(nat \<Rightarrow> real list \<Rightarrow> nat list) \<Rightarrow> nat \<Rightarrow> real tensor \<Rightarrow> error + nat list list" where
  "topk_indices select k t =
     (case shape t of
        [m, n] \<Rightarrow>
          if k \<le> n
          then Inr (map (\<lambda>q. select k (map (\<lambda>j. elem t [q, j]) [0..<n])) [0..<m])
          else Inl RuntimeError
      | _ \<Rightarrow> Inl RuntimeError)"

text \<open>One selection: among equal elements the smaller position comes first.\<close>

definition topk_row :: "nat \<Rightarrow> real list \<Rightarrow> nat list" where
  "topk_row k row = take k (sort_key (\<lambda>j. - (row ! j)) [0..<length row])"


text \<open>Tensors written out: a vector, and a matrix as the list of its rows.\<close>

definition vector_of :: "'a list \<Rightarrow> 'a tensor" where
  "vector_of xs = Tensor [length xs] (\<lambda>idx. xs ! (idx ! 0))"

definition matrix_of :: "'a list list \<Rightarrow> 'a tensor" where
  "matrix_of rows = Tensor [length rows, length (hd rows)] (\<lambda>idx. rows ! (idx ! 0) ! (idx ! 1))"


section \<open>Bias-aware scores of \<^verbatim>\<open>SASRecN\<close>\<close>

text \<open>
  The trained parameters that the three scoring methods read: the item embedding table
  (one row per item), and the weight (one row) and bias (one element) of each of the two
  \<^verbatim>\<open>nn.Linear(hidden_size, 1)\<close> layers.
\<close>

record weights =
  item_embedding :: "real tensor"
  fc_item_weight :: "real tensor"
  fc_item_bias :: "real tensor"
  fc_user_weight :: "real tensor"
  fc_user_bias :: "real tensor"

text \<open>
  The shapes that lines 56 to 74 give the parameters for \<open>n\<close> items and hidden size
  \<open>h\<close>: \<^verbatim>\<open>nn.Embedding(n, h)\<close> and twice \<^verbatim>\<open>nn.Linear(h, 1)\<close>.
\<close>

definition created_shapes :: "nat \<Rightarrow> nat \<Rightarrow> weights \<Rightarrow> bool" where
  "created_shapes n h W \<longleftrightarrow>
     shape (item_embedding W) = [n, h]
     \<and> shape (fc_item_weight W) = [1, h] \<and> shape (fc_item_bias W) = [1]
     \<and> shape (fc_user_weight W) = [1, h] \<and> shape (fc_user_bias W) = [1]"

text \<open>
  \<^verbatim>\<open>torch.nn.Sigmoid()(self.fc_user(seq_output)).squeeze().unsqueeze(1)\<close> and
  \<^verbatim>\<open>torch.nn.Sigmoid()(self.fc_item(emb)).squeeze().unsqueeze(0)\<close>.
\<close>

definition user_score_of :: "weights \<Rightarrow> real tensor \<Rightarrow> error + real tensor" where
  "user_score_of W seq_output =
     and_then (linear (fc_user_weight W) (fc_user_bias W) seq_output)
       (\<lambda>y. unsqueeze 1 (squeeze (tmap sigmoid y)))"

definition item_scores_of :: "weights \<Rightarrow> real tensor \<Rightarrow> error + real tensor" where
  "item_scores_of W emb =
     and_then (linear (fc_item_weight W) (fc_item_bias W) emb)
       (\<lambda>y. unsqueeze 0 (squeeze (tmap sigmoid y)))"

text \<open>
  The line that the three methods share:
  \<^verbatim>\<open>scores * user_score * item_scores - self.c * user_score * item_scores\<close>.
\<close>

definition adjust_scores ::
  "real \<Rightarrow> real tensor \<Rightarrow> real tensor \<Rightarrow> real tensor \<Rightarrow> error + real tensor" where
  "adjust_scores cc scores user_score item_scores =
     and_then (tbin (*) scores user_score) (\<lambda>su.
     and_then (tbin (*) su item_scores) (\<lambda>sui.
     and_then (tbin (*) (tmap ((*) cc) user_score) item_scores) (\<lambda>cui.
     tbin (-) sui cui)))"

text \<open>
  In each method \<open>seq_output\<close> is the result of \<^verbatim>\<open>self.forward\<close>, the transformer
  encoder of the framework: one row per query of the batch. It is taken as given.

  \<^verbatim>\<open>predict\<close>, lines 176 to 183; \<open>test_item\<close> holds one item id per query.
\<close>

definition predict :: "weights \<Rightarrow> real \<Rightarrow> real tensor \<Rightarrow> nat list \<Rightarrow> error + real tensor" where
  "predict W cc seq_output test_item =
     and_then (embedding (item_embedding W) test_item) (\<lambda>test_item_emb.
     and_then (tbin (*) seq_output test_item_emb) (\<lambda>prod.
     and_then (sum_dim1 prod) (\<lambda>scores.
     and_then (user_score_of W seq_output) (\<lambda>user_score.
     and_then (item_scores_of W test_item_emb) (\<lambda>item_scores.
     adjust_scores cc scores user_score item_scores)))))"

text \<open>
  Lines 189 to 194 of \<^verbatim>\<open>full_sort_predict\<close>, and the same lines 156 to 161 of
  the cross-entropy branch of \<^verbatim>\<open>calculate_loss\<close>, whose result is the logits
  handed to the loss function.
\<close>

definition full_sort_scores :: "weights \<Rightarrow> real \<Rightarrow> real tensor \<Rightarrow> error + real tensor" where
  "full_sort_scores W cc seq_output =
     (let test_items_emb = item_embedding W in
      and_then (transpose01 test_items_emb) (\<lambda>emb_t.
      and_then (matmul seq_output emb_t) (\<lambda>scores.
      and_then (user_score_of W seq_output) (\<lambda>user_score.
      and_then (item_scores_of W test_items_emb) (\<lambda>item_scores.
      adjust_scores cc scores user_score item_scores)))))"

definition calculate_loss_logits :: "weights \<Rightarrow> real \<Rightarrow> real tensor \<Rightarrow> error + real tensor" where
  "calculate_loss_logits W cc seq_output =
     (let test_item_emb = item_embedding W in
      and_then (transpose01 test_item_emb) (\<lambda>emb_t.
      and_then (matmul seq_output emb_t) (\<lambda>logits.
      and_then (user_score_of W seq_output) (\<lambda>user_score.
      and_then (item_scores_of W test_item_emb) (\<lambda>item_scores.
      adjust_scores cc logits user_score item_scores)))))"

text \<open>
  The quantities of the specification's formula, element by element: the raw score of
  query \<open>q\<close> and item \<open>i\<close>, the two bias probabilities, and the adjusted score.
\<close>

definition raw_score :: "weights \<Rightarrow> real tensor \<Rightarrow> nat \<Rightarrow> nat \<Rightarrow> real" where
  "raw_score W seq_output q i =
     (\<Sum>l\<leftarrow>[0..<shape seq_output ! 1]. elem seq_output [q, l] * elem (item_embedding W) [i, l])"

definition user_score :: "weights \<Rightarrow> real tensor \<Rightarrow> nat \<Rightarrow> real" where
  "user_score W seq_output q =
     sigmoid ((\<Sum>l\<leftarrow>[0..<shape seq_output ! 1]. elem seq_output [q, l] * elem (fc_user_weight W) [0, l])
              + elem (fc_user_bias W) [0])"

definition item_score :: "weights \<Rightarrow> nat \<Rightarrow> real" where
  "item_score W i =
     sigmoid ((\<Sum>l\<leftarrow>[0..<shape (item_embedding W) ! 1].
                 elem (item_embedding W) [i, l] * elem (fc_item_weight W) [0, l])
              + elem (fc_item_bias W) [0])"

definition adjusted_score :: "weights \<Rightarrow> real \<Rightarrow> real tensor \<Rightarrow> nat \<Rightarrow> nat \<Rightarrow> real" where
  "adjusted_score W cc seq_output q i =
     raw_score W seq_output q i * user_score W seq_output q * item_score W i
     - cc * user_score W seq_output q * item_score W i"


section \<open>The \<^verbatim>\<open>SASRecN\<close> object\<close>

text \<open>
  The entries of \<^verbatim>\<open>config\<close> and the answers of \<^verbatim>\<open>dataset\<close> that the modelled
  lines read: \<^verbatim>\<open>config["model"]\<close>, \<^verbatim>\<open>config["loss_type"]\<close>,
  \<^verbatim>\<open>config['biasc']\<close>, \<^verbatim>\<open>config['alpha']\<close>, \<^verbatim>\<open>config['label']\<close>,
  \<^verbatim>\<open>config['lcnt']\<close> (the number of buckets), \<^verbatim>\<open>dataset.num(self.ITEM_ID)\<close> and
  \<^verbatim>\<open>dataset.counter(dataset.iid_field)\<close>.
\<close>

record config_dict =
  cfg_model :: string
  cfg_loss_type :: string
  cfg_biasc :: real
  cfg_alpha :: real
  cfg_label :: string
  cfg_lcnt :: nat

record dataset_info =
  ds_num :: nat
  ds_counter :: "nat \<Rightarrow> int"

datatype loss = BPRLoss | CrossEntropyLoss

text \<open>
  The attributes of the object. Those that \<^verbatim>\<open>SequentialRecommender.__init__\<close>
  assigns exist from the start; an attribute that only \<^verbatim>\<open>SASRecN.__init__\<close> assigns,
  after the call of the base constructor, is \<open>None\<close> until then, and reading it
  raises AttributeError.
\<close>

record sasrecn =
  n_items :: nat
  label :: "int list"
  pop_label :: "int list"
  name :: string
  item_cnt :: "nat \<Rightarrow> int"
  label_strategy :: string
  label_count :: nat
  loss_type :: "string option"
  params :: "weights option"
  biasc :: "real option"
  alpha :: "real option"
  loss_fct :: "loss option"
  config :: "config_dict option"
  dataset :: "dataset_info option"

text \<open>
  The loop of \<^verbatim>\<open>SASRecN.cal_popular\<close>, lines 102 to 106 of \<^verbatim>\<open>sasrecn.py\<close>:
  the labels appended so far, and the exception that ended the loop, if any.
\<close>

fun log_label_loop :: "(nat \<Rightarrow> int) \<Rightarrow> nat list \<Rightarrow> int list \<Rightarrow> int list \<times> error option" where
  "log_label_loop cnt [] acc = (acc, None)"
| "log_label_loop cnt (item_k # rest) acc =
     (let v = cnt item_k; v = max v 1
      in case py_log v of
           Inl e \<Rightarrow> (acc, Some e)
         | Inr lg \<Rightarrow> log_label_loop cnt rest (acc @ [py_round lg]))"

text \<open>
  \<^verbatim>\<open>SASRecN.cal_popular\<close>: the object after the call, and the exception raised, if
  any. The method overrides \<^verbatim>\<open>SequentialRecommender.cal_popular\<close>.
\<close>

definition SASRecN_cal_popular :: "sasrecn \<Rightarrow> sasrecn \<times> error option" where
  "SASRecN_cal_popular self0 =
     (let self1 = self0\<lparr>label := []\<rparr> in
      case config self1 of
        None \<Rightarrow> (self1, Some AttributeError)
      | Some cfg \<Rightarrow>
          let self2 = self1\<lparr>name := cfg_model cfg\<rparr> in
          case dataset self2 of
            None \<Rightarrow> (self2, Some AttributeError)
          | Some ds \<Rightarrow>
              let self3 = self2\<lparr>item_cnt := ds_counter ds\<rparr> in
              case log_label_loop (item_cnt self3) [0..<n_items self3] [] of
                (lab, Some e) \<Rightarrow> (self3\<lparr>label := lab\<rparr>, Some e)
              | (lab, None) \<Rightarrow>
                  let self4 = self3\<lparr>label := lab\<rparr> in
                  (case py_max (label self4) of
                     Inl e \<Rightarrow> (self4, Some e)
                   | Inr _ \<Rightarrow> (self4, None)))"

text \<open>
  \<^verbatim>\<open>SequentialRecommender.__init__\<close>, lines 160 to 172. Its last statement is
  \<^verbatim>\<open>self.cal_popular()\<close>, which Python dispatches on the class of the object under
  construction: the method is a parameter here.
\<close>

definition SequentialRecommender_init ::
  "(sasrecn \<Rightarrow> sasrecn \<times> error option) \<Rightarrow> config_dict \<Rightarrow> dataset_info \<Rightarrow> error + sasrecn" where
  "SequentialRecommender_init cal_popular_method cfg ds =
     (let self0 = \<lparr>n_items = ds_num ds, label = [], pop_label = [], name = cfg_model cfg,
                   item_cnt = ds_counter ds, label_strategy = cfg_label cfg,
                   label_count = cfg_lcnt cfg, loss_type = None, params = None, biasc = None,
                   alpha = None, loss_fct = None, config = None, dataset = None\<rparr>
      in case cal_popular_method self0 of
           (self1, None) \<Rightarrow> Inr self1
         | (self1, Some e) \<Rightarrow> Inl e)"

text \<open>Lines 78 to 83: the choice of the loss function.\<close>

definition select_loss :: "string \<Rightarrow> error + loss" where
  "select_loss lt =
     (if lt = ''BPR'' then Inr BPRLoss
      else if lt = ''CE'' then Inr CrossEntropyLoss
      else Inl NotImplementedError)"

text \<open>
  \<^verbatim>\<open>SASRecN.__init__\<close>. \<open>fresh\<close> holds the parameters of the layers created in
  lines 56 to 74 as \<^verbatim>\<open>_init_weights\<close> leaves them (random numbers, hence an input).
\<close>

definition SASRecN_init :: "config_dict \<Rightarrow> dataset_info \<Rightarrow> weights \<Rightarrow> error + sasrecn" where
  "SASRecN_init cfg ds fresh =
     and_then (SequentialRecommender_init SASRecN_cal_popular cfg ds) (\<lambda>self1.
       let self2 = self1\<lparr>loss_type := Some (cfg_loss_type cfg), params := Some fresh,
                          biasc := Some (cfg_biasc cfg), alpha := Some (cfg_alpha cfg)\<rparr>
       in and_then (select_loss (cfg_loss_type cfg)) (\<lambda>lf.
            let self3 = self2\<lparr>loss_fct := Some lf\<rparr>;
                self4 = self3\<lparr>config := Some cfg, dataset := Some ds, pop_label := []\<rparr>
            in case SASRecN_cal_popular self4 of
                 (self5, None) \<Rightarrow> Inr self5
               | (self5, Some e) \<Rightarrow> Inl e))"

text \<open>
  \<^verbatim>\<open>SASRecN.cal_curr_pop\<close>, lines 95 and 96: the three values it prints. The sum of
  an empty list is 0.
\<close>

definition cal_curr_pop :: "sasrecn \<Rightarrow> error + (real \<times> int \<times> nat)" where
  "cal_curr_pop self0 =
     and_then (py_truediv (real_of_int (sum_list (pop_label self0))) 10) (\<lambda>s10.
     and_then (py_truediv s10 (real (length (pop_label self0)))) (\<lambda>pop.
     and_then (py_max (label self0)) (\<lambda>mx.
       Inr (pop, mx, length (pop_label self0)))))"

text \<open>
  The loops of lines 196 to 200 of \<^verbatim>\<open>full_sort_predict\<close>: \<open>pop_sum\<close> adds the
  labels of one row of indices, \<open>pop_rows\<close> appends one sum per row to
  \<^verbatim>\<open>self.pop_label\<close>. An exception leaves the entries appended before it.
\<close>

fun pop_sum :: "int list \<Rightarrow> nat list \<Rightarrow> int \<Rightarrow> error + int" where
  "pop_sum lab [] mypop = Inr mypop"
| "pop_sum lab (j # rest) mypop =
     (case py_getitem lab (int j) of
        Inl e \<Rightarrow> Inl e
      | Inr l \<Rightarrow> pop_sum lab rest (mypop + l))"

fun pop_rows :: "sasrecn \<Rightarrow> nat list list \<Rightarrow> sasrecn \<times> error option" where
  "pop_rows self0 [] = (self0, None)"
| "pop_rows self0 (i # rest) =
     (case pop_sum (label self0) i 0 of
        Inl e \<Rightarrow> (self0, Some e)
      | Inr mypop \<Rightarrow> pop_rows (self0\<lparr>pop_label := pop_label self0 @ [mypop]\<rparr>) rest)"

text \<open>
  \<^verbatim>\<open>SASRecN.full_sort_predict\<close>: the object after the call, and the scores returned
  or the exception raised. The layers and \<^verbatim>\<open>self.c\<close> are assigned together by the
  constructor, so the two attributes are looked up first.
\<close>

definition full_sort_predict ::
  "(nat \<Rightarrow> real list \<Rightarrow> nat list) \<Rightarrow> sasrecn \<Rightarrow> real tensor \<Rightarrow> sasrecn \<times> (error + real tensor)" where
  "full_sort_predict select self0 seq_output =
     (case params self0 of
        None \<Rightarrow> (self0, Inl AttributeError)
      | Some W \<Rightarrow>
     (case biasc self0 of
        None \<Rightarrow> (self0, Inl AttributeError)
      | Some cc \<Rightarrow>
     (case full_sort_scores W cc seq_output of
        Inl e \<Rightarrow> (self0, Inl e)
      | Inr scores \<Rightarrow>
     (case topk_indices select 10 scores of
        Inl e \<Rightarrow> (self0, Inl e)
      | Inr rows \<Rightarrow>
     (case pop_rows self0 rows of
        (self1, Some e) \<Rightarrow> (self1, Inl e)
      | (self1, None) \<Rightarrow> (self1, Inr scores))))))"

text \<open>
  \<^verbatim>\<open>AbstractRecommender.load_other_parameter\<close>, lines 87 to 91 of
  \<^verbatim>\<open>abstract_recommender.py\<close>, which \<^verbatim>\<open>SASRecN\<close> inherits: every entry of the
  dictionary \<open>para\<close> is assigned with \<^verbatim>\<open>setattr\<close>. An entry is an attribute name
  with its new value; for the attributes of the record the value has the attribute's
  type, and \<open>Set_other\<close> is an entry that names any other attribute.
\<close>

datatype parameter_entry =
    Set_n_items nat
  | Set_label "int list"
  | Set_pop_label "int list"
  | Set_name string
  | Set_item_cnt "nat \<Rightarrow> int"
  | Set_label_strategy string
  | Set_label_count nat
  | Set_loss_type string
  | Set_params weights
  | Set_biasc real
  | Set_alpha real
  | Set_loss_fct loss
  | Set_config config_dict
  | Set_dataset dataset_info
  | Set_other string

fun setattr :: "sasrecn \<Rightarrow> parameter_entry \<Rightarrow> sasrecn" where
  "setattr self0 (Set_n_items v) = self0\<lparr>n_items := v\<rparr>"
| "setattr self0 (Set_label v) = self0\<lparr>label := v\<rparr>"
| "setattr self0 (Set_pop_label v) = self0\<lparr>pop_label := v\<rparr>"
| "setattr self0 (Set_name v) = self0\<lparr>name := v\<rparr>"
| "setattr self0 (Set_item_cnt v) = self0\<lparr>item_cnt := v\<rparr>"
| "setattr self0 (Set_label_strategy v) = self0\<lparr>label_strategy := v\<rparr>"
| "setattr self0 (Set_label_count v) = self0\<lparr>label_count := v\<rparr>"
| "setattr self0 (Set_loss_type v) = self0\<lparr>loss_type := Some v\<rparr>"
| "setattr self0 (Set_params v) = self0\<lparr>params := Some v\<rparr>"
| "setattr self0 (Set_biasc v) = self0\<lparr>biasc := Some v\<rparr>"
| "setattr self0 (Set_alpha v) = self0\<lparr>alpha := Some v\<rparr>"
| "setattr self0 (Set_loss_fct v) = self0\<lparr>loss_fct := Some v\<rparr>"
| "setattr self0 (Set_config v) = self0\<lparr>config := Some v\<rparr>"
| "setattr self0 (Set_dataset v) = self0\<lparr>dataset := Some v\<rparr>"
| "setattr self0 (Set_other key) = self0"

fun load_other_parameter :: "sasrecn \<Rightarrow> parameter_entry list option \<Rightarrow> sasrecn" where
  "load_other_parameter self0 None = self0"
| "load_other_parameter self0 (Some para) = fold (\<lambda>entry s. setattr s entry) para self0"

text \<open>
  The methods that can be called on a \<^verbatim>\<open>SASRecN\<close> object, with their arguments,
  and the object each call leaves behind.
  \<^item> \<^verbatim>\<open>cal_curr_pop\<close>, \<^verbatim>\<open>calculate_loss\<close> and \<^verbatim>\<open>predict\<close> assign no
    attribute.
  \<^item> Of the methods inherited from the classes of \<^verbatim>\<open>abstract_recommender.py\<close>,
    \<^verbatim>\<open>load_other_parameter\<close> assigns what its argument names;
    \<^verbatim>\<open>init_bias_layer\<close> assigns \<^verbatim>\<open>self.item_bias_layer\<close> and
    \<^verbatim>\<open>calcualte_bias_label\<close> assigns \<^verbatim>\<open>self.bias_label\<close> and
    \<^verbatim>\<open>self.bias_idx\<close>, or raises before that, none of them an attribute of the
    record; the others (\<^verbatim>\<open>other_parameter\<close>, \<^verbatim>\<open>run_before_epoch\<close>,
    \<^verbatim>\<open>run_per_epoch\<close>, \<^verbatim>\<open>vis_emb\<close>, \<^verbatim>\<open>predict_bias\<close>,
    \<^verbatim>\<open>calculate_bias_loss\<close>, \<^verbatim>\<open>gather_indexes\<close>, \<^verbatim>\<open>get_attention_mask\<close>)
    assign no attribute and stand together as \<open>Other_inherited\<close>. The inherited
    \<^verbatim>\<open>cal_curr_pop(scores)\<close>, which \<^verbatim>\<open>SASRecN\<close> overrides, fills a local list
    named \<^verbatim>\<open>pop_label\<close>.
\<close>

datatype operation =
    Cal_curr_pop
  | Cal_popular
  | Calculate_loss "real tensor"
  | Predict "real tensor" "nat list"
  | Full_sort_predict "real tensor"
  | Load_other_parameter "parameter_entry list option"
  | Init_bias_layer
  | Calcualte_bias_label
  | Other_inherited

fun perform :: "(nat \<Rightarrow> real list \<Rightarrow> nat list) \<Rightarrow> sasrecn \<Rightarrow> operation \<Rightarrow> sasrecn" where
  "perform select self0 Cal_curr_pop = self0"
| "perform select self0 Cal_popular = fst (SASRecN_cal_popular self0)"
| "perform select self0 (Calculate_loss seq_output) = self0"
| "perform select self0 (Predict seq_output test_item) = self0"
| "perform select self0 (Full_sort_predict seq_output) =
     fst (full_sort_predict select self0 seq_output)"
| "perform select self0 (Load_other_parameter para) = load_other_parameter self0 para"
| "perform select self0 Init_bias_layer = self0"
| "perform select self0 Calcualte_bias_label = self0"
| "perform select self0 Other_inherited = self0"

fun lifetime :: "(nat \<Rightarrow> real list \<Rightarrow> nat list) \<Rightarrow> sasrecn \<Rightarrow> operation list \<Rightarrow> sasrecn" where
  "lifetime select self0 [] = self0"
| "lifetime select self0 (op # ops) = lifetime select (perform select self0 op) ops"

fun is_load_other_parameter :: "operation \<Rightarrow> bool" where
  "is_load_other_parameter (Load_other_parameter para) = True"
| "is_load_other_parameter op = False"


section \<open>Concrete inputs\<close>

text \<open>
  Parameters for a catalog of three items and hidden size 1: the embeddings 0, 2 and 5,
  and both linear layers with weight 0 and bias 0, so that every bias probability is
  \<open>sigmoid 0 = 1 / 2\<close>.
\<close>

definition three_items :: weights where
  "three_items =
     \<lparr>item_embedding = matrix_of [[0], [2], [5]],
      fc_item_weight = matrix_of [[0]], fc_item_bias = vector_of [0],
      fc_user_weight = matrix_of [[0]], fc_user_bias = vector_of [0]\<rparr>"

text \<open>The same layers for a catalog of ten items with the embeddings 0, 1, .., 9.\<close>

definition ten_items :: weights where
  "ten_items =
     \<lparr>item_embedding = matrix_of [[0], [1], [2], [3], [4], [5], [6], [7], [8], [9]],
      fc_item_weight = matrix_of [[0]], fc_item_bias = vector_of [0],
      fc_user_weight = matrix_of [[0]], fc_user_bias = vector_of [0]\<rparr>"

text \<open>A configuration that asks for the cross-entropy loss, and a dataset of three items.\<close>

definition ce_config :: config_dict where
  "ce_config = \<lparr>cfg_model = ''SASRecN'', cfg_loss_type = ''CE'', cfg_biasc = 1,
                 cfg_alpha = 0, cfg_label = ''log'', cfg_lcnt = 10\<rparr>"

definition three_item_dataset :: dataset_info where
  "three_item_dataset = \<lparr>ds_num = 3, ds_counter = counter_of [0, 4, 9]\<rparr>"

text \<open>
  A \<^verbatim>\<open>SASRecN\<close> object with every attribute set, over the catalog of ten items, item
  \<open>k\<close> carrying the label \<open>k\<close>.
\<close>

definition ten_item_model :: sasrecn where
  "ten_item_model =
     \<lparr>n_items = 10, label = [0, 1, 2, 3, 4, 5, 6, 7, 8, 9], pop_label = [],
      name = ''SASRecN'', item_cnt = (\<lambda>k. 0), label_strategy = ''log'', label_count = 10,
      loss_type = Some ''CE'', params = Some ten_items, biasc = Some 1, alpha = Some 0,
      loss_fct = Some CrossEntropyLoss, config = Some ce_config,
      dataset = Some \<lparr>ds_num = 10, ds_counter = (\<lambda>k. 0)\<rparr>\<rparr>"

text \<open>
  A \<^verbatim>\<open>SASRecN\<close> object over a dataset of four items with the counts 5, 1, 10, 2,
  before its labels are computed.
\<close>

definition four_item_model :: sasrecn where
  "four_item_model =
     \<lparr>n_items = 4, label = [], pop_label = [],
      name = [], item_cnt = (\<lambda>k. 0), label_strategy = ''log'', label_count = 10,
      loss_type = Some ''CE'', params = None, biasc = Some 1, alpha = Some 0,
      loss_fct = Some CrossEntropyLoss, config = Some ce_config,
      dataset = Some \<lparr>ds_num = 4, ds_counter = counter_of [5, 1, 10, 2]\<rparr>\<rparr>"

text \<open>
  A \<^verbatim>\<open>SASRecN\<close> object over the catalog of three items, and one over a catalog of
  twelve items with the embeddings 0, 1, .., 11, item \<open>k\<close> carrying the label \<open>k\<close>.
\<close>

definition three_item_model :: sasrecn where
  "three_item_model =
     \<lparr>n_items = 3, label = [0, 1, 2], pop_label = [],
      name = ''SASRecN'', item_cnt = counter_of [0, 4, 9], label_strategy = ''log'',
      label_count = 10, loss_type = Some ''CE'', params = Some three_items, biasc = Some 1,
      alpha = Some 0, loss_fct = Some CrossEntropyLoss, config = Some ce_config,
      dataset = Some three_item_dataset\<rparr>"

definition twelve_items :: weights where
  "twelve_items =
     \<lparr>item_embedding =
        matrix_of [[0], [1], [2], [3], [4], [5], [6], [7], [8], [9], [10], [11]],
      fc_item_weight = matrix_of [[0]], fc_item_bias = vector_of [0],
      fc_user_weight = matrix_of [[0]], fc_user_bias = vector_of [0]\<rparr>"

definition twelve_item_model :: sasrecn where
  "twelve_item_model =
     \<lparr>n_items = 12, label = [0, 1, 2, 3, 4, 5, 6, 7, 8, 9, 10, 11], pop_label = [],
      name = ''SASRecN'', item_cnt = (\<lambda>k. 0), label_strategy = ''log'', label_count = 10,
      loss_type = Some ''CE'', params = Some twelve_items, biasc = Some 1, alpha = Some 0,
      loss_fct = Some CrossEntropyLoss, config = Some ce_config,
      dataset = Some \<lparr>ds_num = 12, ds_counter = (\<lambda>k. 0)\<rparr>\<rparr>"


section \<open>Auxiliary facts\<close>

lemma and_then_Inr [simp]: "and_then (Inr x) f = f x"
  by (simp add: and_then_def)

lemma and_then_Inl [simp]: "and_then (Inl e) f = Inl e"
  by (simp add: and_then_def)

lemma upt_3: "[0..<3] = [0, 1, 2]"
  by (simp add: eval_nat_numeral)

lemma upt_4: "[0..<4] = [0, 1, 2, 3]"
  by (simp add: eval_nat_numeral)

lemma upt_5: "[0..<5] = [0, 1, 2, 3, 4]"
  by (simp add: eval_nat_numeral)

subsection \<open>Rounding\<close>

lemma py_round_cases: "py_round x = \<lfloor>x\<rfloor> \<or> py_round x = \<lfloor>x\<rfloor> + 1"
  unfolding py_round_def Let_def by simp

lemma py_round_lower: "x - of_int \<lfloor>x\<rfloor> < 1 / 2 \<Longrightarrow> py_round x = \<lfloor>x\<rfloor>"
  unfolding py_round_def Let_def by simp

lemma py_round_upper: "1 / 2 < x - of_int \<lfloor>x\<rfloor> \<Longrightarrow> py_round x = \<lfloor>x\<rfloor> + 1"
  unfolding py_round_def Let_def by simp

lemma py_round_mono:
  assumes xy: "x \<le> y"
  shows "py_round x \<le> py_round y"
proof (cases "\<lfloor>x\<rfloor> = \<lfloor>y\<rfloor>")
  case True
  then have "x - of_int \<lfloor>x\<rfloor> \<le> y - of_int \<lfloor>y\<rfloor>" using xy by simp
  then show ?thesis using True unfolding py_round_def Let_def by simp
next
  case False
  have "\<lfloor>x\<rfloor> \<le> \<lfloor>y\<rfloor>" using xy by (rule floor_mono)
  with False have lt: "\<lfloor>x\<rfloor> + 1 \<le> \<lfloor>y\<rfloor>" by simp
  have a: "py_round x \<le> \<lfloor>x\<rfloor> + 1" using py_round_cases [of x] by linarith
  have b: "\<lfloor>y\<rfloor> \<le> py_round y" using py_round_cases [of y] by linarith
  from a lt b show ?thesis by linarith
qed

lemma py_round_of_int: "py_round (of_int k) = k"
  unfolding py_round_def Let_def by simp

lemma py_round_between:
  assumes "real_of_int k - 1 / 2 < x" "x < real_of_int k + 1 / 2"
  shows "py_round x = k"
proof -
  have "\<lfloor>x\<rfloor> = k \<or> \<lfloor>x\<rfloor> = k - 1" using assms by linarith
  then show ?thesis
  proof
    assume f: "\<lfloor>x\<rfloor> = k"
    then have "x - of_int \<lfloor>x\<rfloor> < 1 / 2" using assms by simp
    then show ?thesis using f py_round_lower by simp
  next
    assume f: "\<lfloor>x\<rfloor> = k - 1"
    then have "1 / 2 < x - of_int \<lfloor>x\<rfloor>" using assms by simp
    then show ?thesis using f py_round_upper by simp
  qed
qed

subsection \<open>Three logarithms\<close>

lemma exp_three_halves_less_5: "exp (3 / 2 :: real) < 5"
proof -
  have "exp (1 / 8 :: real) \<le> 1 + 1 / 8 + (1 / 8)\<^sup>2" by (rule exp_bound) simp_all
  then have e: "exp (1 / 8 :: real) \<le> 73 / 64" by (simp add: power2_eq_square)
  have "exp (3 / 2 :: real) = exp (of_nat 12 * (1 / 8))" by simp
  also have "\<dots> = exp (1 / 8) ^ 12" by (rule exp_of_nat_mult)
  also have "\<dots> \<le> (73 / 64) ^ 12" using e by (rule power_mono) simp
  also have "\<dots> < (5::real)" by (simp add: power_divide)
  finally show ?thesis .
qed

lemma exp_five_halves_greater_10: "(10::real) < exp (5 / 2)"
proof -
  have "(1 + (5 / 2) / of_nat 20) ^ 20 \<le> exp (5 / 2 :: real)"
    by (rule exp_ge_one_plus_x_over_n_power_n) simp_all
  moreover have "(10::real) < (1 + (5 / 2) / of_nat 20) ^ 20" by (simp add: power_divide)
  ultimately show ?thesis by linarith
qed

lemma ln_between:
  fixes x :: real
  assumes "0 < x" "exp a < x" "x < exp b"
  shows "a < ln x \<and> ln x < b"
proof -
  have "exp a < exp (ln x)" "exp (ln x) < exp b" using assms by simp_all
  then show ?thesis by simp
qed

lemma py_round_ln_5: "py_round (ln 5) = 2"
proof -
  have "3 / 2 < ln (5::real) \<and> ln (5::real) < 5 / 2"
    using exp_three_halves_less_5 exp_five_halves_greater_10 by (intro ln_between) simp_all
  then show ?thesis by (intro py_round_between) simp_all
qed

lemma py_round_ln_10: "py_round (ln 10) = 2"
proof -
  have "3 / 2 < ln (10::real) \<and> ln (10::real) < 5 / 2"
    using exp_three_halves_less_5 exp_five_halves_greater_10 by (intro ln_between) simp_all
  then show ?thesis by (intro py_round_between) simp_all
qed

lemma py_round_ln_2: "py_round (ln 2) = 1"
proof -
  have "exp (1 / 2 :: real) \<le> 1 + 1 / 2 + (1 / 2)\<^sup>2" by (rule exp_bound) simp_all
  then have lo: "exp (1 / 2 :: real) < 2" by (simp add: power2_eq_square)
  have "1 + 3 / 2 \<le> exp (3 / 2 :: real)" by (rule exp_ge_add_one_self)
  then have hi: "(2::real) < exp (3 / 2)" by simp
  have "1 / 2 < ln (2::real) \<and> ln (2::real) < 3 / 2"
    using lo hi by (intro ln_between) simp_all
  then show ?thesis by (intro py_round_between) simp_all
qed

lemma py_round_ln_1: "py_round (ln 1) = 0"
  by (simp add: py_round_def)


subsection \<open>Clamped counts and the label loops\<close>

lemma length_clamped_counts [simp]: "length (clamped_counts n cnt) = n"
  by (simp add: clamped_counts_def)

lemma nth_clamped_counts: "k < n \<Longrightarrow> clamped_counts n cnt ! k = max (cnt k) 1"
  by (simp add: clamped_counts_def)

lemma clamped_counts_ge_1: "v \<in> set (clamped_counts n cnt) \<Longrightarrow> 1 \<le> v"
  by (auto simp: clamped_counts_def)

lemma clamped_counts_nonempty: "0 < n \<Longrightarrow> clamped_counts n cnt \<noteq> []"
  by (simp add: clamped_counts_def)

lemma py_max_nonempty: "xs \<noteq> [] \<Longrightarrow> py_max xs = Inr (Max (set xs))"
proof (cases xs)
  case Nil
  assume "xs \<noteq> []"
  with Nil show ?thesis by simp
next
  case (Cons x rest)
  have "fold max rest x = Max (set (x # rest))" by (rule Max.set_eq_fold [symmetric])
  with Cons show ?thesis by simp
qed

lemma py_log_pos: "1 \<le> v \<Longrightarrow> py_log v = Inr (ln (real_of_int v))"
  by (simp add: py_log_def)

lemma enumerate_member:
  "(i, v) \<in> set (List.enumerate 0 xs) \<Longrightarrow> i < length xs \<and> v = xs ! i \<and> v \<in> set xs"
  by (auto simp: in_set_enumerate_eq)

lemma map_enumerate:
  "map (\<lambda>(i, v). f i v) (List.enumerate 0 xs) = map (\<lambda>i. f i (xs ! i)) [0..<length xs]"
  by (rule nth_equalityI) (simp_all add: nth_enumerate_eq)

lemma label_loop_total:
  assumes "\<And>i v. (i, v) \<in> set ivs \<Longrightarrow> body i v = Inr (g i v)"
  shows "label_loop body ivs acc = Inr (acc @ map (\<lambda>(i, v). g i v) ivs)"
  using assms
proof (induction ivs arbitrary: acc)
  case Nil
  show ?case by simp
next
  case (Cons p ivs)
  obtain i v where p: "p = (i, v)" by (cases p)
  have b: "body i v = Inr (g i v)" using Cons.prems p by simp
  have "label_loop body (p # ivs) acc = label_loop body ivs (acc @ [g i v])"
    using b p by simp
  also have "\<dots> = Inr ((acc @ [g i v]) @ map (\<lambda>(i, v). g i v) ivs)"
    by (rule Cons.IH) (simp add: Cons.prems)
  finally show ?case using p by simp
qed

text \<open>What \<^verbatim>\<open>cal_popular\<close> returns when every loop body returns.\<close>

lemma cal_popular_total:
  assumes n: "0 < n"
    and body: "\<And>i. i < n \<Longrightarrow>
        popular_label s lc (Max (set (clamped_counts n cnt))) (argsort (clamped_counts n cnt)) i
          (max (cnt i) 1) = Inr (g i)"
  shows "cal_popular s lc n cnt = Inr (map g [0..<n])"
proof -
  let ?label = "clamped_counts n cnt"
  let ?m = "Max (set ?label)"
  have ne: "?label \<noteq> []" using n by (rule clamped_counts_nonempty)
  have mx: "py_max ?label = Inr ?m" using ne by (rule py_max_nonempty)
  have b: "popular_label s lc ?m (argsort ?label) i v = Inr (g i)"
    if "(i, v) \<in> set (List.enumerate 0 ?label)" for i v
  proof -
    have "i < n" "v = max (cnt i) 1"
      using enumerate_member [OF that] by (simp_all add: nth_clamped_counts)
    then show ?thesis using body by simp
  qed
  have "label_loop (popular_label s lc ?m (argsort ?label)) (List.enumerate 0 ?label) []
      = Inr ([] @ map (\<lambda>(i, v). g i) (List.enumerate 0 ?label))"
    by (rule label_loop_total) (rule b)
  then have loop: "label_loop (popular_label s lc ?m (argsort ?label)) (List.enumerate 0 ?label) []
      = Inr (map g [0..<n])"
    by (simp add: map_enumerate)
  have "map g [0..<n] \<noteq> []" using n by simp
  then have "py_max (map g [0..<n]) = Inr (Max (set (map g [0..<n])))" by (rule py_max_nonempty)
  then show ?thesis
    unfolding cal_popular_def Let_def mx and_then_Inr loop by simp
qed

lemma clamped_max_ge_1: "0 < n \<Longrightarrow> 1 \<le> Max (set (clamped_counts n cnt))"
proof -
  assume "0 < n"
  then have "clamped_counts n cnt \<noteq> []" by (rule clamped_counts_nonempty)
  then have "Max (set (clamped_counts n cnt)) \<in> set (clamped_counts n cnt)"
    by (intro Max_in) simp_all
  then show ?thesis by (rule clamped_counts_ge_1)
qed

lemma cal_popular_log:
  assumes "0 < n" "s \<noteq> ''avg''" "s \<noteq> ''arg''"
  shows "cal_popular s lc n cnt
     = Inr (map (\<lambda>k. py_round (ln (real_of_int (max (cnt k) 1)))) [0..<n])"
  using assms by (intro cal_popular_total) (simp_all add: popular_label_def py_log_pos)

lemma cal_popular_avg:
  assumes "0 < n"
  shows "cal_popular ''avg'' lc n cnt
     = Inr (map (\<lambda>k. py_round (real lc * real_of_int (max (cnt k) 1)
                       / real_of_int (Max (set (clamped_counts n cnt))))) [0..<n])"
proof (intro cal_popular_total assms)
  fix i assume "i < n"
  have "1 \<le> Max (set (clamped_counts n cnt))" using assms by (rule clamped_max_ge_1)
  then show "popular_label ''avg'' lc (Max (set (clamped_counts n cnt)))
      (argsort (clamped_counts n cnt)) i (max (cnt i) 1)
     = Inr (py_round (real lc * real_of_int (max (cnt i) 1)
                       / real_of_int (Max (set (clamped_counts n cnt)))))"
    by (simp add: popular_label_def py_log_pos py_truediv_def)
qed

lemma length_argsort [simp]: "length (argsort xs) = length xs"
  by (simp add: argsort_def)

lemma cal_popular_arg:
  assumes "0 < n"
  shows "cal_popular ''arg'' lc n cnt
     = Inr (map (\<lambda>i. py_round (real lc * real (argsort (clamped_counts n cnt) ! i) / real n))
              [0..<n])"
proof (intro cal_popular_total assms)
  fix i assume "i < n"
  then show "popular_label ''arg'' lc (Max (set (clamped_counts n cnt)))
      (argsort (clamped_counts n cnt)) i (max (cnt i) 1)
     = Inr (py_round (real lc * real (argsort (clamped_counts n cnt) ! i) / real n))"
    using assms by (simp add: popular_label_def py_log_pos py_truediv_def py_getitem_def)
qed

lemma cal_popular_empty: "cal_popular s lc 0 cnt = Inl ValueError"
  by (simp add: cal_popular_def clamped_counts_def)

lemma log_label_loop_total:
  "log_label_loop cnt ks acc
     = (acc @ map (\<lambda>k. py_round (ln (real_of_int (max (cnt k) 1)))) ks, None)"
  by (induction ks arbitrary: acc) (simp_all add: py_log_pos)


section \<open>Popularity labels\<close>

lemma py_round_0: "py_round 0 = 0"
  by (simp add: py_round_def)

lemma upt_2: "[0..<2] = [0, 1]"
  by (simp add: eval_nat_numeral)

text \<open>
  Claim C2. Under the \<^verbatim>\<open>arg\<close> strategy the label of item \<open>i\<close> should be
  round(bucket_count * rank(i) / num_items), with rank(i) the position of item \<open>i\<close> in
  the ascending order of the clamped counts. Line 198 reads \<^verbatim>\<open>lidx[i]\<close>, the
  \<open>i\<close>-th entry of the argsort, which is the index of the item at position \<open>i\<close> of
  that order and not the position of item \<open>i\<close>. For the counts 3, 1, 2 of the items
  0, 1, 2 and three buckets, the method labels the items 1, 2, 0: the most frequent item
  gets a lower label than the least frequent one. Their ranks are 2, 0, 1, and so would
  be their labels.
\<close>

theorem arg_label_is_argsort_entry_not_rank:
  "cal_popular ''arg'' 3 3 (counter_of [3, 1, 2]) = Inr [1, 2, 0]
   \<and> map (spec_arg_label 3 (clamped_counts 3 (counter_of [3, 1, 2]))) [0..<3] = [2, 0, 1]"
proof
  show "cal_popular ''arg'' 3 3 (counter_of [3, 1, 2]) = Inr [1, 2, 0]"
    by (simp add: cal_popular_arg clamped_counts_def counter_of_def argsort_def upt_3 py_round_def)
  show "map (spec_arg_label 3 (clamped_counts 3 (counter_of [3, 1, 2]))) [0..<3] = [2, 0, 1]"
    by (simp add: spec_arg_label_def rank_of_def clamped_counts_def counter_of_def argsort_def
        upt_3 py_round_def)
qed

text \<open>
  The second half of C2 does hold of the method: its labels are a function of the argsort
  alone.
\<close>

lemma arg_labels_depend_on_order_only:
  assumes "0 < n" "argsort (clamped_counts n cnt) = argsort (clamped_counts n cnt')"
  shows "cal_popular ''arg'' lc n cnt = cal_popular ''arg'' lc n cnt'"
  using assms by (simp add: cal_popular_arg)

text \<open>
  Claim C4. Under the \<^verbatim>\<open>log\<close> strategy the label of every item is
  round(ln(max(count, 1))): in \<^verbatim>\<open>SequentialRecommender.cal_popular\<close> (for a
  catalog that is not empty; on an empty one \<^verbatim>\<open>max\<close> raises), in the loop of
  \<^verbatim>\<open>SASRecN.cal_popular\<close>, and in the object that \<^verbatim>\<open>SASRecN.cal_popular\<close>
  leaves behind when \<^verbatim>\<open>self.config\<close> and \<^verbatim>\<open>self.dataset\<close> are set and the
  catalog is not empty: the method ends without an exception, and \<^verbatim>\<open>self.label\<close>
  holds these labels, computed from the counts of the dataset. The label does not
  decrease when the count grows; and the counts 5, 1, 10, 2 get the labels 2, 0, 2, 1.
  The logarithm is the real one.
\<close>

theorem log_strategy_labels:
  "(0 < n \<longrightarrow>
      cal_popular ''log'' lc n cnt
        = Inr (map (\<lambda>k. py_round (ln (real_of_int (max (cnt k) 1)))) [0..<n]))
   \<and> log_label_loop cnt [0..<n] []
        = (map (\<lambda>k. py_round (ln (real_of_int (max (cnt k) 1)))) [0..<n], None)
   \<and> (\<forall>i j. cnt i \<le> cnt j \<longrightarrow>
         py_round (ln (real_of_int (max (cnt i) 1))) \<le> py_round (ln (real_of_int (max (cnt j) 1))))
   \<and> cal_popular ''log'' lc 4 (counter_of [5, 1, 10, 2]) = Inr [2, 0, 2, 1]
   \<and> fst (log_label_loop (counter_of [5, 1, 10, 2]) [0..<4] []) = [2, 0, 2, 1]
   \<and> (config s = Some cfg \<longrightarrow> dataset s = Some ds \<longrightarrow> 0 < n_items s \<longrightarrow>
        SASRecN_cal_popular s
          = (s\<lparr>label := map (\<lambda>k. py_round (ln (real_of_int (max (ds_counter ds k) 1))))
                            [0..<n_items s],
               name := cfg_model cfg, item_cnt := ds_counter ds\<rparr>, None))"
proof (intro conjI impI allI)
  assume "0 < n"
  then show "cal_popular ''log'' lc n cnt
        = Inr (map (\<lambda>k. py_round (ln (real_of_int (max (cnt k) 1)))) [0..<n])"
    by (intro cal_popular_log) simp_all
next
  show "log_label_loop cnt [0..<n] []
        = (map (\<lambda>k. py_round (ln (real_of_int (max (cnt k) 1)))) [0..<n], None)"
    by (simp add: log_label_loop_total)
next
  fix i j assume le: "cnt i \<le> cnt j"
  have "ln (real_of_int (max (cnt i) 1)) \<le> ln (real_of_int (max (cnt j) 1))"
    using le by (intro ln_mono) simp_all
  then show "py_round (ln (real_of_int (max (cnt i) 1))) \<le> py_round (ln (real_of_int (max (cnt j) 1)))"
    by (rule py_round_mono)
next
  have "cal_popular ''log'' lc 4 (counter_of [5, 1, 10, 2])
     = Inr (map (\<lambda>k. py_round (ln (real_of_int (max (counter_of [5, 1, 10, 2] k) 1)))) [0..<4])"
    by (intro cal_popular_log) simp_all
  then show "cal_popular ''log'' lc 4 (counter_of [5, 1, 10, 2]) = Inr [2, 0, 2, 1]"
    by (simp add: upt_4 counter_of_def py_round_ln_5 py_round_ln_10 py_round_ln_2 py_round_0)
next
  show "fst (log_label_loop (counter_of [5, 1, 10, 2]) [0..<4] []) = [2, 0, 2, 1]"
    by (simp add: log_label_loop_total upt_4 counter_of_def py_round_ln_5 py_round_ln_10
        py_round_ln_2 py_round_0)
next
  assume c: "config s = Some cfg" and d: "dataset s = Some ds" and n: "0 < n_items s"
  let ?labels = "map (\<lambda>k. py_round (ln (real_of_int (max (ds_counter ds k) 1)))) [0..<n_items s]"
  have ne: "?labels \<noteq> []" using n by simp
  have mx: "py_max ?labels = Inr (Max (set ?labels))" using ne by (rule py_max_nonempty)
  show "SASRecN_cal_popular s
          = (s\<lparr>label := ?labels, name := cfg_model cfg, item_cnt := ds_counter ds\<rparr>, None)"
    using c d mx by (simp add: SASRecN_cal_popular_def Let_def log_label_loop_total)
qed

theorem log_strategy_labels_witness:
  "(0::nat) < 2 \<and> cal_popular ''log'' 7 2 (counter_of [0, 2]) = Inr [0, 1]
   \<and> counter_of [0, 2] 0 \<le> counter_of [0, 2] 1
   \<and> py_round (ln (real_of_int (max (counter_of [0, 2] 0) 1)))
       \<le> py_round (ln (real_of_int (max (counter_of [0, 2] 1) 1)))
   \<and> config four_item_model = Some ce_config
   \<and> dataset four_item_model = Some \<lparr>ds_num = 4, ds_counter = counter_of [5, 1, 10, 2]\<rparr>
   \<and> 0 < n_items four_item_model
   \<and> label (fst (SASRecN_cal_popular four_item_model)) = [2, 0, 2, 1]
   \<and> snd (SASRecN_cal_popular four_item_model) = None"
proof -
  have pos: "(0::nat) < 2" by simp
  have le: "counter_of [0, 2] 0 \<le> counter_of [0, 2] 1" by (simp add: counter_of_def)
  note inst = log_strategy_labels [of 2 7 "counter_of [0, 2]" four_item_model ce_config
      "\<lparr>ds_num = 4, ds_counter = counter_of [5, 1, 10, 2]\<rparr>"]
  from inst pos have "cal_popular ''log'' 7 2 (counter_of [0, 2])
      = Inr (map (\<lambda>k. py_round (ln (real_of_int (max (counter_of [0, 2] k) 1)))) [0..<2])"
    by blast
  then have a: "cal_popular ''log'' 7 2 (counter_of [0, 2]) = Inr [0, 1]"
    by (simp add: upt_2 counter_of_def py_round_ln_2 py_round_0)
  from inst le have b: "py_round (ln (real_of_int (max (counter_of [0, 2] 0) 1)))
       \<le> py_round (ln (real_of_int (max (counter_of [0, 2] 1) 1)))"
    by blast
  have c: "config four_item_model = Some ce_config"
    and d: "dataset four_item_model = Some \<lparr>ds_num = 4, ds_counter = counter_of [5, 1, 10, 2]\<rparr>"
    and n: "0 < n_items four_item_model" and n4: "n_items four_item_model = 4"
    by (simp_all add: four_item_model_def)
  from inst c d n have "SASRecN_cal_popular four_item_model
      = (four_item_model\<lparr>label := map (\<lambda>k. py_round (ln (real_of_int
              (max (ds_counter \<lparr>ds_num = 4, ds_counter = counter_of [5, 1, 10, 2]\<rparr> k) 1))))
              [0..<n_items four_item_model],
            name := cfg_model ce_config,
            item_cnt := ds_counter \<lparr>ds_num = 4, ds_counter = counter_of [5, 1, 10, 2]\<rparr>\<rparr>, None)"
    by blast
  then have e: "label (fst (SASRecN_cal_popular four_item_model)) = [2, 0, 2, 1]"
    "snd (SASRecN_cal_popular four_item_model) = None"
    by (simp_all add: n4 upt_4 counter_of_def py_round_ln_5 py_round_ln_10 py_round_ln_2
        py_round_0)
  from pos a le b c d n e show ?thesis by blast
qed


text \<open>
  Claim C5. Under the \<^verbatim>\<open>avg\<close> strategy, on a catalog that is not empty and for
  a bucket count \<open>lc\<close> that is a natural number, \<^verbatim>\<open>cal_popular\<close> returns one
  label per item; an item whose clamped count is at least that of another item gets a
  label at least as large; and an item whose clamped count is the largest of all gets
  the label \<open>lc\<close>.
\<close>

theorem avg_strategy_monotone_and_max:
  assumes "0 < n"
  shows "\<exists>labels. cal_popular ''avg'' lc n cnt = Inr labels \<and> length labels = n
     \<and> (\<forall>i<n. \<forall>j<n. max (cnt i) 1 \<le> max (cnt j) 1 \<longrightarrow> labels ! i \<le> labels ! j)
     \<and> (\<forall>i<n. (\<forall>k<n. max (cnt k) 1 \<le> max (cnt i) 1) \<longrightarrow> labels ! i = int lc)"
proof -
  let ?m = "Max (set (clamped_counts n cnt))"
  let ?f = "\<lambda>k. py_round (real lc * real_of_int (max (cnt k) 1) / real_of_int ?m)"
  have m1: "1 \<le> ?m" using assms by (rule clamped_max_ge_1)
  have res: "cal_popular ''avg'' lc n cnt = Inr (map ?f [0..<n])"
    using assms by (rule cal_popular_avg)
  have mono: "?f i \<le> ?f j" if "max (cnt i) 1 \<le> max (cnt j) 1" for i j
  proof -
    have "real lc * real_of_int (max (cnt i) 1) \<le> real lc * real_of_int (max (cnt j) 1)"
      using that by (intro mult_left_mono) simp_all
    then have "real lc * real_of_int (max (cnt i) 1) / real_of_int ?m
        \<le> real lc * real_of_int (max (cnt j) 1) / real_of_int ?m"
      using m1 by (intro divide_right_mono) simp_all
    then show ?thesis by (rule py_round_mono)
  qed
  have top: "?f i = int lc" if i: "i < n" and all: "\<forall>k<n. max (cnt k) 1 \<le> max (cnt i) 1" for i
  proof -
    have mem: "max (cnt i) 1 \<in> set (clamped_counts n cnt)"
      using i by (auto simp: clamped_counts_def)
    have "\<And>v. v \<in> set (clamped_counts n cnt) \<Longrightarrow> v \<le> max (cnt i) 1"
      using all by (auto simp: clamped_counts_def)
    then have "?m = max (cnt i) 1" using mem by (intro Max_eqI) simp_all
    then have "real lc * real_of_int (max (cnt i) 1) / real_of_int ?m = real_of_int (int lc)"
      using m1 by simp
    then show ?thesis by (simp only: py_round_of_int)
  qed
  show ?thesis
  proof (intro exI conjI)
    show "cal_popular ''avg'' lc n cnt = Inr (map ?f [0..<n])" by (rule res)
    show "length (map ?f [0..<n]) = n" by simp
    show "\<forall>i<n. \<forall>j<n. max (cnt i) 1 \<le> max (cnt j) 1 \<longrightarrow> map ?f [0..<n] ! i \<le> map ?f [0..<n] ! j"
      using mono by simp
    show "\<forall>i<n. (\<forall>k<n. max (cnt k) 1 \<le> max (cnt i) 1) \<longrightarrow> map ?f [0..<n] ! i = int lc"
      using top by simp
  qed
qed

theorem avg_strategy_monotone_and_max_witness:
  "(0::nat) < 3 \<and> cal_popular ''avg'' 4 3 (counter_of [0, 8, 3]) = Inr [0, 4, 2]
   \<and> max (counter_of [0, 8, 3] 0) 1 \<le> max (counter_of [0, 8, 3] 2) 1
   \<and> max (counter_of [0, 8, 3] 0) 1 \<le> max (counter_of [0, 8, 3] 1) 1
   \<and> max (counter_of [0, 8, 3] 2) 1 \<le> max (counter_of [0, 8, 3] 1) 1
   \<and> (\<exists>labels. cal_popular ''avg'' 4 3 (counter_of [0, 8, 3]) = Inr labels
          \<and> labels ! 0 \<le> labels ! 2 \<and> labels ! 1 = 4)"
proof -
  have pos: "(0::nat) < 3" by simp
  have val: "cal_popular ''avg'' 4 3 (counter_of [0, 8, 3]) = Inr [0, 4, 2]"
    by (simp add: cal_popular_avg clamped_counts_def counter_of_def upt_3 py_round_def)
  have le: "max (counter_of [0, 8, 3] 0) 1 \<le> max (counter_of [0, 8, 3] 2) 1"
    "max (counter_of [0, 8, 3] 0) 1 \<le> max (counter_of [0, 8, 3] 1) 1"
    "max (counter_of [0, 8, 3] 2) 1 \<le> max (counter_of [0, 8, 3] 1) 1"
    by (simp_all add: counter_of_def)
  have top: "\<forall>k<3. max (counter_of [0, 8, 3] k) 1 \<le> max (counter_of [0, 8, 3] 1) 1"
    by (simp add: counter_of_def less_Suc_eq eval_nat_numeral)
  obtain labels where l: "cal_popular ''avg'' 4 3 (counter_of [0, 8, 3]) = Inr labels"
    "\<forall>i<3. \<forall>j<3. max (counter_of [0, 8, 3] i) 1 \<le> max (counter_of [0, 8, 3] j) 1
        \<longrightarrow> labels ! i \<le> labels ! j"
    "\<forall>i<3. (\<forall>k<3. max (counter_of [0, 8, 3] k) 1 \<le> max (counter_of [0, 8, 3] i) 1)
        \<longrightarrow> labels ! i = int 4"
    using avg_strategy_monotone_and_max [OF pos, of 4 "counter_of [0, 8, 3]"] by blast
  from l(2) le(1) have "labels ! 0 \<le> labels ! 2" by simp
  moreover from l(3) top have "labels ! 1 = 4" by simp
  ultimately have "\<exists>labels. cal_popular ''avg'' 4 3 (counter_of [0, 8, 3]) = Inr labels
          \<and> labels ! 0 \<le> labels ! 2 \<and> labels ! 1 = 4"
    using l(1) by blast
  with pos val le show ?thesis by blast
qed

text \<open>
  Claim C6. Both methods build the list of clamped counts first and apply their formulas
  to its elements only. Every element is at least 1, and is 1 where the recorded count is
  0; so \<^verbatim>\<open>math.log\<close> is defined on every element, the loop of
  \<^verbatim>\<open>SASRecN.cal_popular\<close> ends without an exception, and on a catalog that is not
  empty \<^verbatim>\<open>SequentialRecommender.cal_popular\<close> returns labels under every strategy.
  Neither method can tell a recorded count from the same count raised to at least 1,
  a recorded 0 from a recorded 1 in particular.
\<close>

theorem counts_clamped_before_use:
  "(\<forall>v \<in> set (clamped_counts n cnt). 1 \<le> v \<and> py_log v = Inr (ln (real_of_int v)))
   \<and> (\<forall>k<n. clamped_counts n cnt ! k = max (cnt k) 1
          \<and> (cnt k = 0 \<longrightarrow> clamped_counts n cnt ! k = 1))
   \<and> cal_popular s lc n (\<lambda>k. max (cnt k) 1) = cal_popular s lc n cnt
   \<and> calcualte_bias_label n (\<lambda>k. max (cnt k) 1) r = calcualte_bias_label n cnt r
   \<and> snd (log_label_loop cnt [0..<n] []) = None
   \<and> (0 < n \<longrightarrow> (\<exists>labels. cal_popular s lc n cnt = Inr labels \<and> length labels = n))"
proof (intro conjI ballI allI impI)
  fix v assume "v \<in> set (clamped_counts n cnt)"
  then show "1 \<le> v" by (rule clamped_counts_ge_1)
  then show "py_log v = Inr (ln (real_of_int v))" by (rule py_log_pos)
next
  fix k assume "k < n"
  then show "clamped_counts n cnt ! k = max (cnt k) 1" by (rule nth_clamped_counts)
  then show "clamped_counts n cnt ! k = 1" if "cnt k = 0" using that by simp
next
  have idem: "clamped_counts n (\<lambda>k. max (cnt k) 1) = clamped_counts n cnt"
    by (simp add: clamped_counts_def)
  show "cal_popular s lc n (\<lambda>k. max (cnt k) 1) = cal_popular s lc n cnt"
    by (simp only: cal_popular_def idem)
  show "calcualte_bias_label n (\<lambda>k. max (cnt k) 1) r = calcualte_bias_label n cnt r"
    by (simp only: calcualte_bias_label_def idem)
next
  show "snd (log_label_loop cnt [0..<n] []) = None"
    by (simp add: log_label_loop_total)
next
  assume n: "0 < n"
  consider "s = ''avg''" | "s = ''arg''" | "s \<noteq> ''avg''" "s \<noteq> ''arg''" by blast
  then show "\<exists>labels. cal_popular s lc n cnt = Inr labels \<and> length labels = n"
  proof cases
    case 1
    then show ?thesis using cal_popular_avg [OF n, of lc cnt] by simp
  next
    case 2
    then show ?thesis using cal_popular_arg [OF n, of lc cnt] by simp
  next
    case 3
    then show ?thesis using cal_popular_log [OF n, of s lc cnt] by simp
  qed
qed

theorem counts_clamped_before_use_witness:
  "clamped_counts 2 (counter_of [0, 5]) = [1, 5]
   \<and> (1::int) \<in> set (clamped_counts 2 (counter_of [0, 5])) \<and> py_log 1 = Inr (ln (real_of_int 1))
   \<and> (0::nat) < 2 \<and> counter_of [0, 5] 0 = 0 \<and> clamped_counts 2 (counter_of [0, 5]) ! 0 = 1
   \<and> (\<exists>labels. cal_popular ''avg'' 3 2 (counter_of [0, 5]) = Inr labels \<and> length labels = 2)"
proof -
  note inst = counts_clamped_before_use [of 2 "counter_of [0, 5]" "''avg''" 3]
  have cl: "clamped_counts 2 (counter_of [0, 5]) = [1, 5]"
    by (simp add: clamped_counts_def counter_of_def upt_2)
  then have mem: "(1::int) \<in> set (clamped_counts 2 (counter_of [0, 5]))" by simp
  have pos: "(0::nat) < 2" by simp
  have zero: "counter_of [0, 5] 0 = 0" by (simp add: counter_of_def)
  from inst mem have a: "py_log 1 = Inr (ln (real_of_int 1))" by blast
  from inst pos zero have b: "clamped_counts 2 (counter_of [0, 5]) ! 0 = 1" by blast
  from inst pos have c: "\<exists>labels. cal_popular ''avg'' 3 2 (counter_of [0, 5]) = Inr labels
      \<and> length labels = 2" by blast
  from cl mem a pos zero b c show ?thesis by blast
qed


section \<open>Bias partition\<close>

text \<open>
  Claim C3. For the counts 1, 2, 3, 4, 5 and the ratio 0.4, \<open>mid_i\<close> is 2, the upper
  threshold \<^verbatim>\<open>bias_bak[-2]\<close> is 4 and the items with counts 4 and 5 get label 1, as
  the claim says. The lower threshold \<^verbatim>\<open>bias_bak[2]\<close> is the third smallest count,
  3, not the second: the items with counts 1, 2 and 3 get label 0, and no item is left
  out (all five indices are in \<^verbatim>\<open>bias_idx\<close>).
\<close>

theorem bias_partition_of_five_counts:
  "calcualte_bias_label 5 (counter_of [1, 2, 3, 4, 5]) (4 / 10)
     = Inr (4, 3, \<lparr>bias_label = [0, 0, 0, 1, 1], bias_idx = [0, 1, 2, 3, 4],
                    bias_cnt = 2, nobias_cnt = 3\<rparr>)"
  by (simp add: calcualte_bias_label_def clamped_counts_def counter_of_def py_int_def
      py_getitem_def upt_5 enumerate_eq_zip Let_def)

lemma bias_loop_all_high:
  assumes "\<And>i v. (i, v) \<in> set ivs \<Longrightarrow> m \<le> v"
  shows "bias_loop m nl mid ivs st
     = st\<lparr>bias_label := bias_label st @ replicate (length ivs) 1,
          bias_idx := bias_idx st @ map fst ivs,
          bias_cnt := bias_cnt st + int (length ivs)\<rparr>"
  using assms
proof (induction ivs arbitrary: st)
  case Nil
  show ?case by simp
next
  case (Cons p ivs)
  obtain i v where p: "p = (i, v)" by (cases p)
  let ?st = "st\<lparr>bias_label := bias_label st @ [1], bias_idx := bias_idx st @ [i],
                bias_cnt := bias_cnt st + 1\<rparr>"
  have first: "m \<le> v" using Cons.prems [of i v] p by simp
  have rest: "m \<le> w" if "(k, w) \<in> set ivs" for k w
    using Cons.prems [of k w] that by simp
  have "bias_loop m nl mid (p # ivs) st = bias_loop m nl mid ivs ?st"
    using first p by simp
  also have "\<dots> = ?st\<lparr>bias_label := bias_label ?st @ replicate (length ivs) 1,
          bias_idx := bias_idx ?st @ map fst ivs,
          bias_cnt := bias_cnt ?st + int (length ivs)\<rparr>"
    by (rule Cons.IH) (rule rest)
  finally show ?case using p by simp
qed

lemma sort_nth_0: "xs \<noteq> [] \<Longrightarrow> sort xs ! 0 = Min (set xs)" for xs :: "int list"
proof -
  assume ne: "xs \<noteq> []"
  let ?ys = "sort xs"
  have len: "0 < length ?ys" using ne by simp
  have "?ys ! 0 \<le> y" if "y \<in> set ?ys" for y
  proof -
    from that obtain k where k: "k < length ?ys" "?ys ! k = y"
      unfolding in_set_conv_nth by blast
    have "?ys ! 0 \<le> ?ys ! k" using k(1) by (intro sorted_nth_mono) simp_all
    then show ?thesis using k(2) by simp
  qed
  moreover have "?ys ! 0 \<in> set ?ys" using len by (rule nth_mem)
  ultimately have "Min (set ?ys) = ?ys ! 0" by (intro Min_eqI) simp_all
  then show ?thesis by simp
qed

text \<open>
  Claim C9. Let the catalog hold at least one item and let \<open>int(n_items * b_ratio)\<close> be 0.
  Then both thresholds are the smallest clamped count, every item gets label 1 and is
  recorded in \<^verbatim>\<open>bias_idx\<close>, and no item gets label 0. (On an empty catalog
  \<^verbatim>\<open>bias_bak[-0]\<close> raises IndexError.)
\<close>

theorem zero_mid_labels_every_item_high:
  assumes "0 < n" "py_int (real n * b_ratio) = 0"
  shows "calcualte_bias_label n cnt b_ratio
     = Inr (Min (set (clamped_counts n cnt)), Min (set (clamped_counts n cnt)),
            \<lparr>bias_label = replicate n 1, bias_idx = [0..<n], bias_cnt = int n, nobias_cnt = 0\<rparr>)"
proof -
  let ?bias = "clamped_counts n cnt"
  let ?m = "Min (set ?bias)"
  have ne: "?bias \<noteq> []" using assms(1) by (rule clamped_counts_nonempty)
  have first: "py_getitem (sort ?bias) 0 = Inr ?m"
    using ne assms(1) by (simp add: py_getitem_def sort_nth_0)
  have high: "?m \<le> v" if "(i, v) \<in> set (List.enumerate 0 ?bias)" for i v
  proof -
    have "v \<in> set ?bias" using enumerate_member [OF that] by blast
    then show ?thesis by simp
  qed
  have loop: "bias_loop ?m ?m 0 (List.enumerate 0 ?bias)
        \<lparr>bias_label = [], bias_idx = [], bias_cnt = 0, nobias_cnt = 0\<rparr>
      = \<lparr>bias_label = replicate n 1, bias_idx = [0..<n], bias_cnt = int n, nobias_cnt = 0\<rparr>"
    by (subst bias_loop_all_high [OF high]) simp_all
  show ?thesis
    unfolding calcualte_bias_label_def Let_def
    using assms(2) first loop by simp
qed

theorem zero_mid_labels_every_item_high_witness:
  "(0::nat) < 3 \<and> py_int (real 3 * (3 / 10)) = 0
   \<and> calcualte_bias_label 3 (counter_of [7, 0, 2]) (3 / 10)
     = Inr (1, 1, \<lparr>bias_label = [1, 1, 1], bias_idx = [0, 1, 2], bias_cnt = 3, nobias_cnt = 0\<rparr>)"
proof -
  have pos: "(0::nat) < 3" by simp
  have mid: "py_int (real 3 * (3 / 10)) = 0" by (simp add: py_int_def)
  have "calcualte_bias_label 3 (counter_of [7, 0, 2]) (3 / 10)
     = Inr (Min (set (clamped_counts 3 (counter_of [7, 0, 2]))),
            Min (set (clamped_counts 3 (counter_of [7, 0, 2]))),
            \<lparr>bias_label = replicate 3 1, bias_idx = [0..<3], bias_cnt = int 3, nobias_cnt = 0\<rparr>)"
    using pos mid by (rule zero_mid_labels_every_item_high)
  then show ?thesis using pos mid
    by (simp add: clamped_counts_def counter_of_def upt_3 eval_nat_numeral)
qed


section \<open>Bias-aware scores\<close>

text \<open>
  The simplifier is kept out of the element function of a tensor until the tensor is read
  at an index.
\<close>

lemma Tensor_shape_cong: "s = s' \<Longrightarrow> Tensor s f = Tensor s' f"
  by simp

lemmas tensor_defs = tbin_def broadcast_shapes_def operand_index_def tmap_def squeeze_def
  unsqueeze_def transpose01_def matmul_def linear_def sum_dim1_def embedding_def

lemma returns_tensor:
  assumes "case m of Inl e \<Rightarrow> False | Inr t \<Rightarrow> P t"
  obtains t where "m = Inr t" "P t"
  using assms by (cases m) simp_all

lemma linear_rows:
  assumes "shape x = [B, H]" "shape w = [1, H]" "shape b = [1]"
  obtains y where "linear w b x = Inr y" "shape y = [B, 1]"
    "\<forall>q<B. elem y [q, 0] = (\<Sum>l\<leftarrow>[0..<H]. elem x [q, l] * elem w [0, l]) + elem b [0]"
proof (rule returns_tensor)
  show "case linear w b x of Inl e \<Rightarrow> False | Inr y \<Rightarrow> shape y = [B, 1] \<and>
     (\<forall>q<B. elem y [q, 0] = (\<Sum>l\<leftarrow>[0..<H]. elem x [q, l] * elem w [0, l]) + elem b [0])"
    using assms by (auto simp add: tensor_defs cong: Tensor_shape_cong)
qed blast

lemma user_score_of_rows:
  assumes "shape seq = [B, H]" "shape (fc_user_weight W) = [1, H]" "shape (fc_user_bias W) = [1]"
    "B \<noteq> 1"
  obtains us where "user_score_of W seq = Inr us" "shape us = [B, 1]"
    "\<forall>q<B. elem us [q, 0] = user_score W seq q"
proof -
  obtain y where y: "linear (fc_user_weight W) (fc_user_bias W) seq = Inr y" "shape y = [B, 1]"
    "\<forall>q<B. elem y [q, 0] = (\<Sum>l\<leftarrow>[0..<H]. elem seq [q, l] * elem (fc_user_weight W) [0, l])
        + elem (fc_user_bias W) [0]"
    using linear_rows [OF assms(1-3)] by blast
  show ?thesis
  proof (rule returns_tensor)
    show "case user_score_of W seq of Inl e \<Rightarrow> False | Inr us \<Rightarrow> shape us = [B, 1] \<and>
       (\<forall>q<B. elem us [q, 0] = user_score W seq q)"
      using assms y
      by (simp add: user_score_of_def user_score_def squeeze_def unsqueeze_def tmap_def
          cong: Tensor_shape_cong)
  qed (use that in blast)
qed

text \<open>
  A batch of one query: \<^verbatim>\<open>squeeze()\<close> removes both dimensions of the 1-by-1 result
  of \<^verbatim>\<open>fc_user\<close>, and \<^verbatim>\<open>unsqueeze(1)\<close> of a tensor without dimensions raises.
\<close>

lemma user_score_of_single_query:
  assumes "shape seq = [1, H]" "shape (fc_user_weight W) = [1, H]" "shape (fc_user_bias W) = [1]"
  shows "user_score_of W seq = Inl IndexError"
proof -
  obtain y where y: "linear (fc_user_weight W) (fc_user_bias W) seq = Inr y" "shape y = [1, 1]"
    using linear_rows [OF assms(1-3)] by blast
  then show ?thesis
    by (simp add: user_score_of_def squeeze_def unsqueeze_def tmap_def cong: Tensor_shape_cong)
qed

lemma item_scores_of_rows:
  assumes "shape emb = [N, H]" "shape (fc_item_weight W) = [1, H]" "shape (fc_item_bias W) = [1]"
  obtains its where "item_scores_of W emb = Inr its"
    "shape its = (if N = 1 then [1] else [1, N])"
    "\<forall>i<N. elem its (if N = 1 then [0] else [0, i]) =
        sigmoid ((\<Sum>l\<leftarrow>[0..<H]. elem emb [i, l] * elem (fc_item_weight W) [0, l])
                 + elem (fc_item_bias W) [0])"
proof -
  obtain y where y: "linear (fc_item_weight W) (fc_item_bias W) emb = Inr y" "shape y = [N, 1]"
    "\<forall>q<N. elem y [q, 0] = (\<Sum>l\<leftarrow>[0..<H]. elem emb [q, l] * elem (fc_item_weight W) [0, l])
        + elem (fc_item_bias W) [0]"
    using linear_rows [OF assms(1-3)] by blast
  show ?thesis
  proof (rule returns_tensor)
    show "case item_scores_of W emb of Inl e \<Rightarrow> False | Inr its \<Rightarrow>
       shape its = (if N = 1 then [1] else [1, N]) \<and>
       (\<forall>i<N. elem its (if N = 1 then [0] else [0, i]) =
          sigmoid ((\<Sum>l\<leftarrow>[0..<H]. elem emb [i, l] * elem (fc_item_weight W) [0, l])
                   + elem (fc_item_bias W) [0]))"
      using assms y
      by (simp add: item_scores_of_def squeeze_def unsqueeze_def tmap_def cong: Tensor_shape_cong)
  qed (use that in blast)
qed

lemma adjust_scores_matrix:
  assumes "shape scores = [B, N]" "shape us = [B, 1]" "shape its = (if N = 1 then [1] else [1, N])"
  obtains t where "adjust_scores cc scores us its = Inr t" "shape t = [B, N]"
    "\<forall>q<B. \<forall>i<N. elem t [q, i] =
        elem scores [q, i] * elem us [q, 0] * elem its (if N = 1 then [0] else [0, i])
        - cc * elem us [q, 0] * elem its (if N = 1 then [0] else [0, i])"
proof (rule returns_tensor)
  show "case adjust_scores cc scores us its of Inl e \<Rightarrow> False | Inr t \<Rightarrow> shape t = [B, N] \<and>
     (\<forall>q<B. \<forall>i<N. elem t [q, i] =
        elem scores [q, i] * elem us [q, 0] * elem its (if N = 1 then [0] else [0, i])
        - cc * elem us [q, 0] * elem its (if N = 1 then [0] else [0, i]))"
    using assms by (simp add: adjust_scores_def tensor_defs cong: Tensor_shape_cong)
qed blast

text \<open>
  In \<^verbatim>\<open>predict\<close> the raw scores are a vector, one score per query. Against the
  column of user scores and the row of item scores it is broadcast as a row: the result
  is a square matrix, and the raw score in row \<open>r\<close> and column \<open>c\<close> is that of query
  \<open>c\<close>.
\<close>

lemma adjust_scores_vector:
  assumes "shape scores = [B]" "shape us = [B, 1]" "shape its = [1, B]" "B \<noteq> 1"
  obtains t where "adjust_scores cc scores us its = Inr t" "shape t = [B, B]"
    "\<forall>r<B. \<forall>c<B. elem t [r, c] =
        elem scores [c] * elem us [r, 0] * elem its [0, c] - cc * elem us [r, 0] * elem its [0, c]"
proof (rule returns_tensor)
  show "case adjust_scores cc scores us its of Inl e \<Rightarrow> False | Inr t \<Rightarrow> shape t = [B, B] \<and>
     (\<forall>r<B. \<forall>c<B. elem t [r, c] =
        elem scores [c] * elem us [r, 0] * elem its [0, c] - cc * elem us [r, 0] * elem its [0, c])"
    using assms by (simp add: adjust_scores_def tensor_defs cong: Tensor_shape_cong)
qed blast


text \<open>
  What the two full-catalog computations return for a batch of \<open>B \<noteq> 1\<close> queries:
  the adjusted score of the specification, for every query and every item.
\<close>

lemma full_sort_scores_elements:
  assumes W: "created_shapes N H W" and seq: "shape seq = [B, H]" and B: "B \<noteq> 1"
  obtains t where "full_sort_scores W cc seq = Inr t" "shape t = [B, N]"
    "\<forall>q<B. \<forall>i<N. elem t [q, i] = adjusted_score W cc seq q i"
proof -
  have emb: "shape (item_embedding W) = [N, H]"
    and iw: "shape (fc_item_weight W) = [1, H]" and ib: "shape (fc_item_bias W) = [1]"
    and uw: "shape (fc_user_weight W) = [1, H]" and ub: "shape (fc_user_bias W) = [1]"
    using W by (simp_all add: created_shapes_def)
  obtain et where et: "transpose01 (item_embedding W) = Inr et" "shape et = [H, N]"
    "\<forall>l i. elem et [l, i] = elem (item_embedding W) [i, l]"
    using emb by (simp add: transpose01_def)
  obtain sc where sc: "matmul seq et = Inr sc" "shape sc = [B, N]"
    "\<forall>q i. elem sc [q, i] = raw_score W seq q i"
    using seq et by (simp add: matmul_def raw_score_def)
  obtain us where us: "user_score_of W seq = Inr us" "shape us = [B, 1]"
    "\<forall>q<B. elem us [q, 0] = user_score W seq q"
    using user_score_of_rows [OF seq uw ub B] by blast
  obtain its where its: "item_scores_of W (item_embedding W) = Inr its"
    "shape its = (if N = 1 then [1] else [1, N])"
    "\<forall>i<N. elem its (if N = 1 then [0] else [0, i]) =
        sigmoid ((\<Sum>l\<leftarrow>[0..<H]. elem (item_embedding W) [i, l] * elem (fc_item_weight W) [0, l])
                 + elem (fc_item_bias W) [0])"
    using item_scores_of_rows [OF emb iw ib] by blast
  have its': "\<forall>i<N. elem its (if N = 1 then [0] else [0, i]) = item_score W i"
    using its(3) emb by (simp add: item_score_def)
  obtain t where t: "adjust_scores cc sc us its = Inr t" "shape t = [B, N]"
    "\<forall>q<B. \<forall>i<N. elem t [q, i] =
        elem sc [q, i] * elem us [q, 0] * elem its (if N = 1 then [0] else [0, i])
        - cc * elem us [q, 0] * elem its (if N = 1 then [0] else [0, i])"
    using adjust_scores_matrix [OF sc(2) us(2) its(2)] by blast
  have "full_sort_scores W cc seq = Inr t"
    by (simp add: full_sort_scores_def et(1) sc(1) us(1) its(1) t(1))
  moreover have "\<forall>q<B. \<forall>i<N. elem t [q, i] = adjusted_score W cc seq q i"
    using t(3) sc(3) us(3) its' by (simp add: adjusted_score_def)
  ultimately show ?thesis using t(2) that by blast
qed

lemma calculate_loss_logits_eq: "calculate_loss_logits W cc seq = full_sort_scores W cc seq"
  by (simp add: calculate_loss_logits_def full_sort_scores_def)

lemma full_sort_scores_single_query:
  assumes W: "created_shapes N H W" and seq: "shape seq = [1, H]"
  shows "full_sort_scores W cc seq = Inl IndexError"
proof -
  have emb: "shape (item_embedding W) = [N, H]"
    and uw: "shape (fc_user_weight W) = [1, H]" and ub: "shape (fc_user_bias W) = [1]"
    using W by (simp_all add: created_shapes_def)
  obtain et where et: "transpose01 (item_embedding W) = Inr et" "shape et = [H, N]"
    using emb by (simp add: transpose01_def)
  obtain sc where sc: "matmul seq et = Inr sc"
    using seq et by (simp add: matmul_def)
  have "user_score_of W seq = Inl IndexError"
    using seq uw ub by (rule user_score_of_single_query)
  then show ?thesis by (simp add: full_sort_scores_def et(1) sc)
qed

text \<open>
  What \<^verbatim>\<open>predict\<close> returns for a batch of \<open>B \<noteq> 1\<close> queries with their target
  items: a \<open>B\<close>-by-\<open>B\<close> matrix. Row \<open>r\<close>, column \<open>c\<close> combines the raw score of query
  \<open>c\<close> for its own target with the user score of query \<open>r\<close>.
\<close>

lemma predict_elements:
  assumes W: "created_shapes N H W" and seq: "shape seq = [B, H]" and B: "B \<noteq> 1"
    and items: "length test_item = B" "list_all (\<lambda>i. i < N) test_item"
  obtains t where "predict W cc seq test_item = Inr t" "shape t = [B, B]"
    "\<forall>r<B. \<forall>c<B. elem t [r, c] =
        raw_score W seq c (test_item ! c) * user_score W seq r * item_score W (test_item ! c)
        - cc * user_score W seq r * item_score W (test_item ! c)"
proof -
  have emb: "shape (item_embedding W) = [N, H]"
    and iw: "shape (fc_item_weight W) = [1, H]" and ib: "shape (fc_item_bias W) = [1]"
    and uw: "shape (fc_user_weight W) = [1, H]" and ub: "shape (fc_user_bias W) = [1]"
    using W by (simp_all add: created_shapes_def)
  obtain te where te: "embedding (item_embedding W) test_item = Inr te" "shape te = [B, H]"
    "\<forall>q l. elem te [q, l] = elem (item_embedding W) [test_item ! q, l]"
    using emb items by (simp add: embedding_def)
  obtain pr where pr: "tbin (*) seq te = Inr pr" "shape pr = [B, H]"
    "\<forall>q<B. \<forall>l<H. elem pr [q, l] = elem seq [q, l] * elem te [q, l]"
  proof (rule returns_tensor)
    show "case tbin (*) seq te of Inl e \<Rightarrow> False | Inr pr \<Rightarrow> shape pr = [B, H] \<and>
        (\<forall>q<B. \<forall>l<H. elem pr [q, l] = elem seq [q, l] * elem te [q, l])"
      using seq te(2) by (simp add: tensor_defs cong: Tensor_shape_cong)
  qed blast
  obtain sc where sc: "sum_dim1 pr = Inr sc" "shape sc = [B]"
    "\<forall>q. elem sc [q] = (\<Sum>l\<leftarrow>[0..<H]. elem pr [q, l])"
    using pr(2) by (simp add: sum_dim1_def)
  have raw: "elem sc [q] = raw_score W seq q (test_item ! q)" if "q < B" for q
  proof -
    have "(\<Sum>l\<leftarrow>[0..<H]. elem pr [q, l])
        = (\<Sum>l\<leftarrow>[0..<H]. elem seq [q, l] * elem (item_embedding W) [test_item ! q, l])"
      using pr(3) te(3) that by (intro arg_cong [where f = sum_list] map_cong) simp_all
    then show ?thesis using sc(3) seq by (simp add: raw_score_def)
  qed
  obtain us where us: "user_score_of W seq = Inr us" "shape us = [B, 1]"
    "\<forall>q<B. elem us [q, 0] = user_score W seq q"
    using user_score_of_rows [OF seq uw ub B] by blast
  obtain its where its: "item_scores_of W te = Inr its"
    "shape its = (if B = 1 then [1] else [1, B])"
    "\<forall>i<B. elem its (if B = 1 then [0] else [0, i]) =
        sigmoid ((\<Sum>l\<leftarrow>[0..<H]. elem te [i, l] * elem (fc_item_weight W) [0, l])
                 + elem (fc_item_bias W) [0])"
    using item_scores_of_rows [OF te(2) iw ib] by blast
  have its_shape: "shape its = [1, B]" using its(2) B by simp
  have its': "elem its [0, i] = item_score W (test_item ! i)" if "i < B" for i
    using its(3) te(3) emb B that by (simp add: item_score_def)
  obtain t where t: "adjust_scores cc sc us its = Inr t" "shape t = [B, B]"
    "\<forall>r<B. \<forall>c<B. elem t [r, c] =
        elem sc [c] * elem us [r, 0] * elem its [0, c] - cc * elem us [r, 0] * elem its [0, c]"
    using adjust_scores_vector [OF sc(2) us(2) its_shape B] by blast
  have "predict W cc seq test_item = Inr t"
    by (simp add: predict_def te(1) pr(1) sc(1) us(1) its(1) t(1))
  moreover have "\<forall>r<B. \<forall>c<B. elem t [r, c] =
        raw_score W seq c (test_item ! c) * user_score W seq r * item_score W (test_item ! c)
        - cc * user_score W seq r * item_score W (test_item ! c)"
    using t(3) raw us(3) its' by simp
  ultimately show ?thesis using t(2) that by blast
qed


text \<open>
  Claim C1. The claim holds of \<^verbatim>\<open>full_sort_predict\<close> and of the cross-entropy branch
  of \<^verbatim>\<open>calculate_loss\<close> on a batch of two or more queries (lemmas
  \<open>full_sort_scores_elements\<close> and \<open>calculate_loss_logits_eq\<close>). It fails for
  \<^verbatim>\<open>predict\<close>. For two queries with hidden states 1 and 3 and the target items 1
  and 2, over the parameters \<open>three_items\<close> and with \<open>c = 1\<close>, the method returns a
  2-by-2 matrix and not one score per query. Its entry in row 0 and column 1 is
  \<open>7 / 2\<close>: the raw score 15 of query 1 for item 2, with the user score of query 0. The
  adjusted score of query 0 and item 2 is 1, that of query 1 and item 2 is \<open>7 / 2\<close>.
\<close>

theorem predict_returns_square_matrix:
  "\<exists>t. predict three_items 1 (matrix_of [[1], [3]]) [1, 2] = Inr t
       \<and> shape t = [2, 2]
       \<and> elem t [0, 1] = 7 / 2
       \<and> adjusted_score three_items 1 (matrix_of [[1], [3]]) 0 2 = 1
       \<and> adjusted_score three_items 1 (matrix_of [[1], [3]]) 1 2 = 7 / 2"
proof -
  have W: "created_shapes 3 1 three_items"
    by (simp add: created_shapes_def three_items_def matrix_of_def vector_of_def)
  have seq: "shape (matrix_of [[1], [3::real]]) = [2, 1]"
    by (simp add: matrix_of_def)
  obtain t where t: "predict three_items 1 (matrix_of [[1], [3]]) [1, 2] = Inr t"
    "shape t = [2, 2]"
    "\<forall>r<2. \<forall>c<2. elem t [r, c] =
        raw_score three_items (matrix_of [[1], [3]]) c ([1, 2] ! c)
          * user_score three_items (matrix_of [[1], [3]]) r * item_score three_items ([1, 2] ! c)
        - 1 * user_score three_items (matrix_of [[1], [3]]) r * item_score three_items ([1, 2] ! c)"
    using predict_elements [OF W seq, of "[1, 2]" 1] by auto
  have "elem t [0, 1] =
        raw_score three_items (matrix_of [[1], [3]]) 1 ([1, 2] ! 1)
          * user_score three_items (matrix_of [[1], [3]]) 0 * item_score three_items ([1, 2] ! 1)
        - 1 * user_score three_items (matrix_of [[1], [3]]) 0 * item_score three_items ([1, 2] ! 1)"
    using t(3) by simp
  then have e: "elem t [0, 1] = 7 / 2"
    by (simp add: raw_score_def user_score_def item_score_def three_items_def matrix_of_def
        vector_of_def sigmoid_def)
  have a: "adjusted_score three_items 1 (matrix_of [[1], [3]]) 0 2 = 1"
    by (simp add: adjusted_score_def raw_score_def user_score_def item_score_def three_items_def
        matrix_of_def vector_of_def sigmoid_def)
  have b: "adjusted_score three_items 1 (matrix_of [[1], [3]]) 1 2 = 7 / 2"
    by (simp add: adjusted_score_def raw_score_def user_score_def item_score_def three_items_def
        matrix_of_def vector_of_def sigmoid_def)
  from t(1,2) e a b show ?thesis by blast
qed

section \<open>Construction\<close>

lemma select_loss_cases:
  "select_loss ''BPR'' = Inr BPRLoss"
  "select_loss ''CE'' = Inr CrossEntropyLoss"
  "lt \<noteq> ''BPR'' \<Longrightarrow> lt \<noteq> ''CE'' \<Longrightarrow> select_loss lt = Inl NotImplementedError"
  by (simp_all add: select_loss_def)

text \<open>
  The base constructor calls \<^verbatim>\<open>self.cal_popular()\<close> before \<^verbatim>\<open>SASRecN.__init__\<close>
  has assigned \<^verbatim>\<open>self.config\<close> (line 88), and the overriding method reads
  \<^verbatim>\<open>self.config\<close> in its second statement.
\<close>

lemma SASRecN_init_raises: "SASRecN_init cfg ds fresh = Inl AttributeError"
  by (simp add: SASRecN_init_def SequentialRecommender_init_def SASRecN_cal_popular_def Let_def)

text \<open>
  Claim C7. The lines 78 to 83 choose the loss as the claim says (\<open>select_loss_cases\<close>),
  but no construction reaches them: a construction with the loss type \<^verbatim>\<open>"CE"\<close> ends
  with AttributeError, raised inside the base constructor.
\<close>

theorem construction_with_CE_raises:
  "SASRecN_init ce_config three_item_dataset three_items = Inl AttributeError"
  by (simp add: SASRecN_init_def SequentialRecommender_init_def SASRecN_cal_popular_def Let_def)

section \<open>The accumulator \<^verbatim>\<open>pop_label\<close>\<close>

text \<open>
  Claim C10. With an empty accumulator \<^verbatim>\<open>cal_curr_pop\<close> raises ZeroDivisionError,
  so the method returns only if the accumulator holds an entry. If it does, and the
  object has labels, the method returns: it prints the mean of the entries divided by
  10, the largest label and the number of entries.
\<close>

theorem cal_curr_pop_needs_entries:
  "(pop_label s = [] \<longrightarrow> cal_curr_pop s = Inl ZeroDivisionError)
   \<and> (\<forall>r. cal_curr_pop s = Inr r \<longrightarrow> pop_label s \<noteq> [])
   \<and> (pop_label s \<noteq> [] \<longrightarrow> label s \<noteq> [] \<longrightarrow>
        cal_curr_pop s = Inr (real_of_int (sum_list (pop_label s)) / 10 / real (length (pop_label s)),
                              Max (set (label s)), length (pop_label s)))"
proof (intro conjI impI allI)
  show e: "cal_curr_pop s = Inl ZeroDivisionError" if "pop_label s = []"
    using that by (simp add: cal_curr_pop_def py_truediv_def)
  show "pop_label s \<noteq> []" if "cal_curr_pop s = Inr r" for r
    using that e by auto
  show "cal_curr_pop s = Inr (real_of_int (sum_list (pop_label s)) / 10 / real (length (pop_label s)),
                              Max (set (label s)), length (pop_label s))"
    if "pop_label s \<noteq> []" "label s \<noteq> []"
    using that by (simp add: cal_curr_pop_def py_truediv_def py_max_nonempty)
qed

theorem cal_curr_pop_needs_entries_witness:
  "pop_label ten_item_model = []
   \<and> cal_curr_pop ten_item_model = Inl ZeroDivisionError
   \<and> pop_label (ten_item_model\<lparr>pop_label := [45, 45]\<rparr>) \<noteq> []
   \<and> label (ten_item_model\<lparr>pop_label := [45, 45]\<rparr>) \<noteq> []
   \<and> cal_curr_pop (ten_item_model\<lparr>pop_label := [45, 45]\<rparr>) = Inr (9 / 2, 9, 2)"
proof -
  have empty: "pop_label ten_item_model = []" by (simp add: ten_item_model_def)
  have a: "cal_curr_pop ten_item_model = Inl ZeroDivisionError"
    using cal_curr_pop_needs_entries [of ten_item_model] empty by blast
  have ne: "pop_label (ten_item_model\<lparr>pop_label := [45, 45]\<rparr>) \<noteq> []"
    "label (ten_item_model\<lparr>pop_label := [45, 45]\<rparr>) \<noteq> []"
    by (simp_all add: ten_item_model_def)
  have "cal_curr_pop (ten_item_model\<lparr>pop_label := [45, 45]\<rparr>)
      = Inr (real_of_int (sum_list (pop_label (ten_item_model\<lparr>pop_label := [45, 45]\<rparr>))) / 10
               / real (length (pop_label (ten_item_model\<lparr>pop_label := [45, 45]\<rparr>))),
             Max (set (label (ten_item_model\<lparr>pop_label := [45, 45]\<rparr>))),
             length (pop_label (ten_item_model\<lparr>pop_label := [45, 45]\<rparr>)))"
    using cal_curr_pop_needs_entries [of "ten_item_model\<lparr>pop_label := [45, 45]\<rparr>"] ne by blast
  then have b: "cal_curr_pop (ten_item_model\<lparr>pop_label := [45, 45]\<rparr>) = Inr (9 / 2, 9, 2)"
    by (simp add: ten_item_model_def)
  from empty a ne b show ?thesis by blast
qed


subsection \<open>The loops of \<^verbatim>\<open>full_sort_predict\<close>\<close>

lemma py_getitem_nat: "py_getitem lab (int j) = (if j < length lab then Inr (lab ! j) else Inl IndexError)"
  by (simp add: py_getitem_def)

lemma pop_sum_returns:
  "pop_sum lab js acc = Inr v \<Longrightarrow> v = acc + sum_list (map ((!) lab) js)"
proof (induction js arbitrary: acc)
  case Nil
  then show ?case by simp
next
  case (Cons j js)
  show ?case
  proof (cases "j < length lab")
    case True
    then have "pop_sum lab (j # js) acc = pop_sum lab js (acc + lab ! j)"
      by (simp add: py_getitem_nat)
    then have "pop_sum lab js (acc + lab ! j) = Inr v" using Cons.prems by simp
    then have "v = (acc + lab ! j) + sum_list (map ((!) lab) js)" by (rule Cons.IH)
    then show ?thesis by simp
  next
    case False
    then have "pop_sum lab (j # js) acc = Inl IndexError" by (simp add: py_getitem_nat)
    then show ?thesis using Cons.prems by simp
  qed
qed

lemma pop_sum_in_range:
  "list_all (\<lambda>j. j < length lab) js \<Longrightarrow> pop_sum lab js acc = Inr (acc + sum_list (map ((!) lab) js))"
  by (induction js arbitrary: acc) (simp_all add: py_getitem_nat)

text \<open>
  Whatever the outcome, \<open>pop_rows\<close> leaves the labels and does not shorten the
  accumulator; when it ends without an exception it has appended one sum per row.
\<close>

lemma pop_rows_label: "label (fst (pop_rows s rows)) = label s"
proof (induction rows arbitrary: s)
  case Nil
  show ?case by simp
next
  case (Cons i rows)
  show ?case
  proof (cases "pop_sum (label s) i 0")
    case (Inl e)
    then show ?thesis by simp
  next
    case (Inr mypop)
    then have "pop_rows s (i # rows) = pop_rows (s\<lparr>pop_label := pop_label s @ [mypop]\<rparr>) rows"
      by simp
    then show ?thesis by (simp add: Cons.IH)
  qed
qed

lemma pop_rows_length: "length (pop_label s) \<le> length (pop_label (fst (pop_rows s rows)))"
proof (induction rows arbitrary: s)
  case Nil
  show ?case by simp
next
  case (Cons i rows)
  show ?case
  proof (cases "pop_sum (label s) i 0")
    case (Inl e)
    then show ?thesis by simp
  next
    case (Inr mypop)
    then have step: "pop_rows s (i # rows) = pop_rows (s\<lparr>pop_label := pop_label s @ [mypop]\<rparr>) rows"
      by simp
    have "length (pop_label (s\<lparr>pop_label := pop_label s @ [mypop]\<rparr>))
        \<le> length (pop_label (fst (pop_rows (s\<lparr>pop_label := pop_label s @ [mypop]\<rparr>) rows)))"
      by (rule Cons.IH)
    then show ?thesis unfolding step by simp
  qed
qed

lemma pop_rows_returns:
  "snd (pop_rows s rows) = None \<Longrightarrow>
   pop_label (fst (pop_rows s rows))
     = pop_label s @ map (\<lambda>i. sum_list (map ((!) (label s)) i)) rows"
proof (induction rows arbitrary: s)
  case Nil
  show ?case by simp
next
  case (Cons i rows)
  show ?case
  proof (cases "pop_sum (label s) i 0")
    case (Inl e)
    then have "snd (pop_rows s (i # rows)) = Some e" by simp
    then show ?thesis using Cons.prems by simp
  next
    case (Inr mypop)
    have v: "mypop = sum_list (map ((!) (label s)) i)"
      using pop_sum_returns [OF Inr] by simp
    have step: "pop_rows s (i # rows) = pop_rows (s\<lparr>pop_label := pop_label s @ [mypop]\<rparr>) rows"
      using Inr by simp
    have "snd (pop_rows (s\<lparr>pop_label := pop_label s @ [mypop]\<rparr>) rows) = None"
      using Cons.prems by (simp only: step)
    then have "pop_label (fst (pop_rows (s\<lparr>pop_label := pop_label s @ [mypop]\<rparr>) rows))
      = pop_label (s\<lparr>pop_label := pop_label s @ [mypop]\<rparr>)
        @ map (\<lambda>i. sum_list (map ((!) (label (s\<lparr>pop_label := pop_label s @ [mypop]\<rparr>))) i)) rows"
      by (rule Cons.IH)
    then show ?thesis unfolding step v by simp
  qed
qed

lemma pop_rows_in_range:
  "list_all (list_all (\<lambda>j. j < length (label s))) rows \<Longrightarrow> snd (pop_rows s rows) = None"
proof (induction rows arbitrary: s)
  case Nil
  show ?case by simp
next
  case (Cons i rows)
  have i: "list_all (\<lambda>j. j < length (label s)) i"
    and rest: "list_all (list_all (\<lambda>j. j < length (label s))) rows"
    using Cons.prems by simp_all
  have "pop_sum (label s) i 0 = Inr (0 + sum_list (map ((!) (label s)) i))"
    using i by (rule pop_sum_in_range)
  then have step: "pop_rows s (i # rows)
      = pop_rows (s\<lparr>pop_label := pop_label s @ [0 + sum_list (map ((!) (label s)) i)]\<rparr>) rows"
    by simp
  have "snd (pop_rows (s\<lparr>pop_label := pop_label s @ [0 + sum_list (map ((!) (label s)) i)]\<rparr>) rows) = None"
    by (rule Cons.IH) (simp add: rest)
  then show ?case by (simp only: step)
qed


lemma topk_indices_rows:
  assumes "shape t = [B, N]" "topk_indices select k t = Inr rows"
  shows "k \<le> N" "length rows = B"
    "rows = map (\<lambda>q. select k (map (\<lambda>j. elem t [q, j]) [0..<N])) [0..<B]"
proof -
  show kN: "k \<le> N" using assms by (simp add: topk_indices_def split: if_splits)
  show rows: "rows = map (\<lambda>q. select k (map (\<lambda>j. elem t [q, j]) [0..<N])) [0..<B]"
    using assms kN by (simp add: topk_indices_def)
  then show "length rows = B" by simp
qed

lemma topk_indices_returns:
  assumes "shape t = [B, N]" "k \<le> N"
  obtains rows where "topk_indices select k t = Inr rows"
  using assms by (simp add: topk_indices_def)

lemma topk_indices_small: "shape t = [B, N] \<Longrightarrow> N < k \<Longrightarrow> topk_indices select k t = Inl RuntimeError"
  by (simp add: topk_indices_def)

lemma is_topk_in_range: "is_topk k row idxs \<Longrightarrow> list_all (\<lambda>j. j < length row) idxs"
  by (simp add: is_topk_def)

text \<open>The selection \<open>topk_row\<close> is one that \<open>is_topk\<close> admits.\<close>

lemma topk_row_is_topk:
  assumes k: "k \<le> length row"
  shows "is_topk k row (topk_row k row)"
proof -
  let ?f = "\<lambda>j. - (row ! j)"
  let ?xs = "sort_key ?f [0..<length row]"
  have len: "length ?xs = length row" by simp
  have set_xs: "set ?xs = {0..<length row}" by simp
  have dist: "distinct ?xs" by simp
  have srt: "sorted (map ?f ?xs)" by (rule sorted_sort_key)
  have split: "?xs = take k ?xs @ drop k ?xs" by simp
  have l: "length (take k ?xs) = k" using k by simp
  have d: "distinct (take k ?xs)" using dist by (rule distinct_take)
  have r: "list_all (\<lambda>j. j < length row) (take k ?xs)"
  proof -
    have "set (take k ?xs) \<subseteq> set ?xs" by (rule set_take_subset)
    then show ?thesis unfolding list_all_iff set_xs by auto
  qed
  have "sorted (map ?f (take k ?xs @ drop k ?xs))" using srt by simp
  then have parts: "sorted (map ?f (take k ?xs))"
    "\<forall>x \<in> set (take k ?xs). \<forall>y \<in> set (drop k ?xs). ?f x \<le> ?f y"
    unfolding map_append sorted_append by auto
  have o: "sorted_wrt (\<lambda>a b. row ! a \<ge> row ! b) (take k ?xs)"
    using parts(1) unfolding sorted_wrt_map by simp
  have m: "list_all (\<lambda>j'. j' \<in> set (take k ?xs) \<or> list_all (\<lambda>j. row ! j' \<le> row ! j) (take k ?xs))
      [0..<length row]"
    unfolding list_all_iff
  proof (intro ballI)
    fix j' assume "j' \<in> set [0..<length row]"
    then have "j' \<in> set ?xs" using set_xs by simp
    then have "j' \<in> set (take k ?xs @ drop k ?xs)" by (simp only: append_take_drop_id)
    then have cases: "j' \<in> set (take k ?xs) \<or> j' \<in> set (drop k ?xs)"
      by (simp only: set_append Un_iff)
    show "j' \<in> set (take k ?xs) \<or> (\<forall>j \<in> set (take k ?xs). row ! j' \<le> row ! j)"
    proof (cases "j' \<in> set (take k ?xs)")
      case True
      then show ?thesis by simp
    next
      case False
      with cases have "j' \<in> set (drop k ?xs)" by simp
      then have "\<forall>j \<in> set (take k ?xs). ?f j \<le> ?f j'" using parts(2) by blast
      then show ?thesis by simp
    qed
  qed
  show ?thesis
    unfolding is_topk_def topk_row_def using l d r o m by blast
qed


subsection \<open>\<^verbatim>\<open>full_sort_predict\<close> and the lifetime of the object\<close>

lemma full_sort_predict_returned:
  assumes "snd (full_sort_predict select s seq) = Inr scores"
  obtains W cc rows where "params s = Some W" "biasc s = Some cc"
    "full_sort_scores W cc seq = Inr scores" "topk_indices select 10 scores = Inr rows"
    "snd (pop_rows s rows) = None" "fst (full_sort_predict select s seq) = fst (pop_rows s rows)"
proof (cases "params s")
  case None
  then have "snd (full_sort_predict select s seq) = Inl AttributeError"
    by (simp add: full_sort_predict_def)
  with assms show ?thesis by simp
next
  case W: (Some W)
  show ?thesis
  proof (cases "biasc s")
    case None
    then have "snd (full_sort_predict select s seq) = Inl AttributeError"
      using W by (simp add: full_sort_predict_def)
    with assms show ?thesis by simp
  next
    case cc: (Some cc)
    show ?thesis
    proof (cases "full_sort_scores W cc seq")
      case (Inl e)
      then have "snd (full_sort_predict select s seq) = Inl e"
        using W cc by (simp add: full_sort_predict_def)
      with assms show ?thesis by simp
    next
      case sc: (Inr sc)
      show ?thesis
      proof (cases "topk_indices select 10 sc")
        case (Inl e)
        then have "snd (full_sort_predict select s seq) = Inl e"
          using W cc sc by (simp add: full_sort_predict_def)
        with assms show ?thesis by simp
      next
        case rows: (Inr rows)
        obtain s' out where pr: "pop_rows s rows = (s', out)" by (cases "pop_rows s rows")
        show ?thesis
        proof (cases out)
          case None
          then have res: "full_sort_predict select s seq = (s', Inr sc)"
            using W cc sc rows pr by (simp add: full_sort_predict_def)
          then have "sc = scores" using assms by simp
          then show ?thesis using that [of W cc rows] W cc sc rows pr None res by simp
        next
          case (Some e)
          then have "full_sort_predict select s seq = (s', Inl e)"
            using W cc sc rows pr by (simp add: full_sort_predict_def)
          with assms show ?thesis by simp
        qed
      qed
    qed
  qed
qed

lemma full_sort_predict_length:
  "length (pop_label s) \<le> length (pop_label (fst (full_sort_predict select s seq)))"
proof (cases "params s")
  case None
  then show ?thesis by (simp add: full_sort_predict_def)
next
  case W: (Some W)
  show ?thesis
  proof (cases "biasc s")
    case None
    then show ?thesis using W by (simp add: full_sort_predict_def)
  next
    case cc: (Some cc)
    show ?thesis
    proof (cases "full_sort_scores W cc seq")
      case (Inl e)
      then show ?thesis using W cc by (simp add: full_sort_predict_def)
    next
      case sc: (Inr sc)
      show ?thesis
      proof (cases "topk_indices select 10 sc")
        case (Inl e)
        then show ?thesis using W cc sc by (simp add: full_sort_predict_def)
      next
        case rows: (Inr rows)
        obtain s' out where pr: "pop_rows s rows = (s', out)" by (cases "pop_rows s rows")
        have "fst (full_sort_predict select s seq) = s'"
          using W cc sc rows pr by (cases out) (simp_all add: full_sort_predict_def)
        moreover have "length (pop_label s) \<le> length (pop_label (fst (pop_rows s rows)))"
          by (rule pop_rows_length)
        ultimately show ?thesis using pr by simp
      qed
    qed
  qed
qed

lemma full_sort_scores_shape:
  assumes "created_shapes N H W" "shape seq = [B, H]" "full_sort_scores W cc seq = Inr scores"
  shows "shape scores = [B, N] \<and> B \<noteq> 1"
proof (cases "B = 1")
  case True
  then have "full_sort_scores W cc seq = Inl IndexError"
    using assms(1,2) by (intro full_sort_scores_single_query) simp_all
  with assms(3) show ?thesis by simp
next
  case False
  obtain t where "full_sort_scores W cc seq = Inr t" "shape t = [B, N]"
    using full_sort_scores_elements [OF assms(1,2) False] by blast
  with assms(3) False show ?thesis by simp
qed

lemma SASRecN_cal_popular_pop_label:
  "pop_label (fst (SASRecN_cal_popular s)) = pop_label s"
  by (simp add: SASRecN_cal_popular_def Let_def split: option.splits prod.splits sum.splits)

lemma perform_length:
  "\<not> is_load_other_parameter op \<Longrightarrow>
   length (pop_label s) \<le> length (pop_label (perform select s op))"
  by (cases op) (simp_all add: SASRecN_cal_popular_pop_label full_sort_predict_length)

lemma lifetime_length:
  "list_all (\<lambda>op. \<not> is_load_other_parameter op) ops \<Longrightarrow>
   length (pop_label s) \<le> length (pop_label (lifetime select s ops))"
proof (induction ops arbitrary: s)
  case Nil
  show ?case by simp
next
  case (Cons op ops)
  have "length (pop_label s) \<le> length (pop_label (perform select s op))"
    using Cons.prems by (intro perform_length) simp
  also have "\<dots> \<le> length (pop_label (lifetime select (perform select s op) ops))"
    using Cons.prems by (intro Cons.IH) simp
  finally show ?case by simp
qed

text \<open>
  A call returns when the batch holds no query or at least two, the catalog has at least
  ten items and every item has a label. It raises, and leaves the object as it was, on
  a batch of one query and on a catalog of fewer than ten items.
\<close>

lemma full_sort_predict_returns:
  assumes sel: "\<And>row. 10 \<le> length row \<Longrightarrow> is_topk 10 row (select 10 row)"
    and "params s = Some W" "biasc s = Some cc" "created_shapes N H W" "shape seq = [B, H]"
    "B \<noteq> 1" "10 \<le> N" "N \<le> length (label s)"
  shows "\<exists>scores. snd (full_sort_predict select s seq) = Inr scores"
proof -
  obtain t where t: "full_sort_scores W cc seq = Inr t" "shape t = [B, N]"
    using full_sort_scores_elements [OF assms(4,5,6)] by blast
  obtain rows where rows: "topk_indices select 10 t = Inr rows"
    using topk_indices_returns [OF t(2) assms(7)] by blast
  have rows_eq: "rows = map (\<lambda>q. select 10 (map (\<lambda>j. elem t [q, j]) [0..<N])) [0..<B]"
    using t(2) rows by (rule topk_indices_rows(3))
  have "list_all (\<lambda>j. j < length (label s)) i" if "i \<in> set rows" for i
  proof -
    from that rows_eq obtain q where i: "i = select 10 (map (\<lambda>j. elem t [q, j]) [0..<N])"
      by auto
    have "is_topk 10 (map (\<lambda>j. elem t [q, j]) [0..<N]) i"
      unfolding i using assms(7) by (intro sel) simp
    then have "list_all (\<lambda>j. j < length (map (\<lambda>j. elem t [q, j]) [0..<N])) i"
      by (rule is_topk_in_range)
    then have "list_all (\<lambda>j. j < N) i" by simp
    then show ?thesis using assms(8) unfolding list_all_iff by (meson less_le_trans)
  qed
  then have "list_all (list_all (\<lambda>j. j < length (label s))) rows"
    by (simp add: list_all_iff)
  then have none: "snd (pop_rows s rows) = None" by (rule pop_rows_in_range)
  obtain s' where "pop_rows s rows = (s', None)"
    using none by (cases "pop_rows s rows") simp
  then have "snd (full_sort_predict select s seq) = Inr t"
    using assms(2,3) t(1) rows by (simp add: full_sort_predict_def)
  then show ?thesis ..
qed

lemma full_sort_predict_single_query:
  assumes "params s = Some W" "biasc s = Some cc" "created_shapes N H W" "shape seq = [1, H]"
  shows "full_sort_predict select s seq = (s, Inl IndexError)"
proof -
  have "full_sort_scores W cc seq = Inl IndexError"
    using assms(3,4) by (rule full_sort_scores_single_query)
  then show ?thesis using assms(1,2) by (simp add: full_sort_predict_def)
qed

lemma full_sort_predict_small_catalog:
  assumes "params s = Some W" "biasc s = Some cc" "created_shapes N H W" "shape seq = [B, H]"
    "B \<noteq> 1" "N < 10"
  shows "full_sort_predict select s seq = (s, Inl RuntimeError)"
proof -
  obtain t where t: "full_sort_scores W cc seq = Inr t" "shape t = [B, N]"
    using full_sort_scores_elements [OF assms(3,4,5)] by blast
  have "topk_indices select 10 t = Inl RuntimeError"
    using t(2) assms(6) by (rule topk_indices_small)
  then show ?thesis using assms(1,2) t(1) by (simp add: full_sort_predict_def)
qed


text \<open>
  Claim C8, as stated, fails in two ways. A call of \<^verbatim>\<open>full_sort_predict\<close> need not
  append one entry per query: on the catalog of three items a batch of two queries makes
  \<^verbatim>\<open>topk(10)\<close> raise, and nothing is appended. And a method of the model can remove
  entries: \<^verbatim>\<open>load_other_parameter\<close> with an entry for \<^verbatim>\<open>pop_label\<close> replaces an
  accumulator of two entries by the empty list.
\<close>

theorem call_without_entries_and_reset_counterexample:
  "shape (matrix_of [[1], [3::real]]) = [2, 1]
   \<and> snd (full_sort_predict topk_row three_item_model (matrix_of [[1], [3]])) = Inl RuntimeError
   \<and> pop_label (fst (full_sort_predict topk_row three_item_model (matrix_of [[1], [3]])))
       = pop_label three_item_model
   \<and> pop_label (ten_item_model\<lparr>pop_label := [45, 45]\<rparr>) = [45, 45]
   \<and> pop_label (perform topk_row (ten_item_model\<lparr>pop_label := [45, 45]\<rparr>)
                   (Load_other_parameter (Some [Set_pop_label []]))) = []"
proof -
  let ?seq = "matrix_of [[1], [3::real]]"
  have W: "params three_item_model = Some three_items"
    and cc: "biasc three_item_model = Some 1"
    by (simp_all add: three_item_model_def)
  have shapes: "created_shapes 3 1 three_items"
    by (simp add: created_shapes_def three_items_def matrix_of_def vector_of_def)
  have seq: "shape ?seq = [2, 1]" by (simp add: matrix_of_def)
  have "full_sort_predict topk_row three_item_model ?seq = (three_item_model, Inl RuntimeError)"
    using W cc shapes seq by (rule full_sort_predict_small_catalog) simp_all
  then show ?thesis using seq by simp
qed

text \<open>
  Claim C8, amended. Let the parameters have the shapes the constructor gives them, let
  the batch hold \<open>B\<close> queries, and let \<open>select\<close> be any selection that
  \<^verbatim>\<open>topk\<close> may make. A call of \<^verbatim>\<open>full_sort_predict\<close> that returns its scores has
  run on a catalog of at least ten items and has appended exactly \<open>B\<close> entries to
  \<^verbatim>\<open>pop_label\<close>, one per query: the sum of the labels of ten distinct items of the
  query's row of adjusted scores, none of which scores less than an item left out. A
  call does return when the batch holds no query or at least two, the catalog has at
  least ten items and every item has a label. A call, whether it returns or raises,
  never shortens the accumulator, and neither does any other method but
  \<^verbatim>\<open>load_other_parameter\<close>: over a sequence of calls without that method the length
  of \<^verbatim>\<open>pop_label\<close> does not decrease.
\<close>

theorem returning_call_appends_entry_per_query:
  assumes valid: "\<forall>row. 10 \<le> length row \<longrightarrow> is_topk 10 row (select 10 row)"
    and W: "params s = Some W" and cc: "biasc s = Some cc"
    and shapes: "created_shapes N H W" and seq: "shape seq = [B, H]"
  shows "(\<forall>scores. snd (full_sort_predict select s seq) = Inr scores \<longrightarrow>
            10 \<le> N \<and> shape scores = [B, N]
            \<and> (\<forall>q<B. \<forall>i<N. elem scores [q, i] = adjusted_score W cc seq q i)
            \<and> (\<exists>rows. topk_indices select 10 scores = Inr rows \<and> length rows = B
                  \<and> (\<forall>q<B. is_topk 10 (map (\<lambda>j. elem scores [q, j]) [0..<N]) (rows ! q))
                  \<and> pop_label (fst (full_sort_predict select s seq))
                      = pop_label s @ map (\<lambda>i. sum_list (map ((!) (label s)) i)) rows))
     \<and> (B \<noteq> 1 \<longrightarrow> 10 \<le> N \<longrightarrow> N \<le> length (label s) \<longrightarrow>
            (\<exists>scores. snd (full_sort_predict select s seq) = Inr scores))
     \<and> length (pop_label s) \<le> length (pop_label (fst (full_sort_predict select s seq)))
     \<and> (list_all (\<lambda>op. \<not> is_load_other_parameter op) ops \<longrightarrow>
            length (pop_label s) \<le> length (pop_label (lifetime select s ops)))"
proof (intro conjI)
  have sel: "is_topk 10 row (select 10 row)" if "10 \<le> length row" for row
    using valid that by blast
  show "\<forall>scores. snd (full_sort_predict select s seq) = Inr scores \<longrightarrow>
            10 \<le> N \<and> shape scores = [B, N]
            \<and> (\<forall>q<B. \<forall>i<N. elem scores [q, i] = adjusted_score W cc seq q i)
            \<and> (\<exists>rows. topk_indices select 10 scores = Inr rows \<and> length rows = B
                  \<and> (\<forall>q<B. is_topk 10 (map (\<lambda>j. elem scores [q, j]) [0..<N]) (rows ! q))
                  \<and> pop_label (fst (full_sort_predict select s seq))
                      = pop_label s @ map (\<lambda>i. sum_list (map ((!) (label s)) i)) rows)"
  proof (intro allI impI)
    fix scores
    assume ret: "snd (full_sort_predict select s seq) = Inr scores"
    obtain W' c' rows where r: "params s = Some W'" "biasc s = Some c'"
      "full_sort_scores W' c' seq = Inr scores" "topk_indices select 10 scores = Inr rows"
      "snd (pop_rows s rows) = None"
      "fst (full_sort_predict select s seq) = fst (pop_rows s rows)"
      using full_sort_predict_returned [OF ret] by blast
    have eq: "W' = W" "c' = cc" using W cc r(1,2) by simp_all
    have sc: "full_sort_scores W cc seq = Inr scores" using r(3) eq by simp
    have shB: "shape scores = [B, N] \<and> B \<noteq> 1"
      using shapes seq sc by (rule full_sort_scores_shape)
    then have sh: "shape scores = [B, N]" and B: "B \<noteq> 1" by simp_all
    obtain t where t: "full_sort_scores W cc seq = Inr t"
      "\<forall>q<B. \<forall>i<N. elem t [q, i] = adjusted_score W cc seq q i"
      using full_sort_scores_elements [OF shapes seq B, of cc] by blast
    have "t = scores" using t(1) sc by simp
    then have els: "\<forall>q<B. \<forall>i<N. elem scores [q, i] = adjusted_score W cc seq q i"
      using t(2) by simp
    have N: "10 \<le> N" using sh r(4) by (rule topk_indices_rows(1))
    have len: "length rows = B" using sh r(4) by (rule topk_indices_rows(2))
    have rows_eq: "rows = map (\<lambda>q. select 10 (map (\<lambda>j. elem scores [q, j]) [0..<N])) [0..<B]"
      using sh r(4) by (rule topk_indices_rows(3))
    have top: "\<forall>q<B. is_topk 10 (map (\<lambda>j. elem scores [q, j]) [0..<N]) (rows ! q)"
    proof (intro allI impI)
      fix q assume "q < B"
      then have "rows ! q = select 10 (map (\<lambda>j. elem scores [q, j]) [0..<N])"
        unfolding rows_eq by simp
      moreover have "is_topk 10 (map (\<lambda>j. elem scores [q, j]) [0..<N])
          (select 10 (map (\<lambda>j. elem scores [q, j]) [0..<N]))"
        using N by (intro sel) simp
      ultimately show "is_topk 10 (map (\<lambda>j. elem scores [q, j]) [0..<N]) (rows ! q)" by simp
    qed
    have "pop_label (fst (pop_rows s rows))
        = pop_label s @ map (\<lambda>i. sum_list (map ((!) (label s)) i)) rows"
      using r(5) by (rule pop_rows_returns)
    then have app: "pop_label (fst (full_sort_predict select s seq))
        = pop_label s @ map (\<lambda>i. sum_list (map ((!) (label s)) i)) rows"
      by (simp only: r(6))
    have ex: "\<exists>rows. topk_indices select 10 scores = Inr rows \<and> length rows = B
           \<and> (\<forall>q<B. is_topk 10 (map (\<lambda>j. elem scores [q, j]) [0..<N]) (rows ! q))
           \<and> pop_label (fst (full_sort_predict select s seq))
               = pop_label s @ map (\<lambda>i. sum_list (map ((!) (label s)) i)) rows"
      using r(4) len top app by (intro exI [of _ rows] conjI)
    show "10 \<le> N \<and> shape scores = [B, N]
            \<and> (\<forall>q<B. \<forall>i<N. elem scores [q, i] = adjusted_score W cc seq q i)
            \<and> (\<exists>rows. topk_indices select 10 scores = Inr rows \<and> length rows = B
                  \<and> (\<forall>q<B. is_topk 10 (map (\<lambda>j. elem scores [q, j]) [0..<N]) (rows ! q))
                  \<and> pop_label (fst (full_sort_predict select s seq))
                      = pop_label s @ map (\<lambda>i. sum_list (map ((!) (label s)) i)) rows)"
      using N sh els ex by (intro conjI)
  qed
  show "B \<noteq> 1 \<longrightarrow> 10 \<le> N \<longrightarrow> N \<le> length (label s) \<longrightarrow>
            (\<exists>scores. snd (full_sort_predict select s seq) = Inr scores)"
  proof (intro impI)
    assume B: "B \<noteq> 1" and N: "10 \<le> N" and lab: "N \<le> length (label s)"
    show "\<exists>scores. snd (full_sort_predict select s seq) = Inr scores"
      using valid [rule_format] W cc shapes seq B N lab
      by (rule full_sort_predict_returns [of select])
  qed
  show "length (pop_label s) \<le> length (pop_label (fst (full_sort_predict select s seq)))"
    by (rule full_sort_predict_length)
  show "list_all (\<lambda>op. \<not> is_load_other_parameter op) ops \<longrightarrow>
            length (pop_label s) \<le> length (pop_label (lifetime select s ops))"
    using lifetime_length by blast
qed


lemma upt_12: "[0..<12] = [0, 1, 2, 3, 4, 5, 6, 7, 8, 9, 10, 11]"
  by (simp add: eval_nat_numeral)

lemma twelve_item_scores:
  "map (\<lambda>j. adjusted_score twelve_items 1 (matrix_of [[1], [- 1]]) 0 j) [0..<12]
     = [- 1 / 4, 0, 1 / 4, 2 / 4, 3 / 4, 4 / 4, 5 / 4, 6 / 4, 7 / 4, 8 / 4, 9 / 4, 10 / 4]"
  "map (\<lambda>j. adjusted_score twelve_items 1 (matrix_of [[1], [- 1]]) 1 j) [0..<12]
     = [- 1 / 4, - 2 / 4, - 3 / 4, - 4 / 4, - 5 / 4, - 6 / 4, - 7 / 4, - 8 / 4, - 9 / 4,
        - 10 / 4, - 11 / 4, - 12 / 4]"
  by (simp_all add: upt_12 adjusted_score_def raw_score_def user_score_def item_score_def
      twelve_items_def matrix_of_def vector_of_def sigmoid_def)

lemma twelve_item_selection:
  "topk_row 10 [- 1 / 4, 0, 1 / 4, 2 / 4, 3 / 4, 4 / 4, 5 / 4, 6 / 4, 7 / 4, 8 / 4, 9 / 4, 10 / 4]
     = [11, 10, 9, 8, 7, 6, 5, 4, 3, 2]"
  "topk_row 10 [- 1 / 4, - 2 / 4, - 3 / 4, - 4 / 4, - 5 / 4, - 6 / 4, - 7 / 4, - 8 / 4, - 9 / 4,
        - 10 / 4, - 11 / 4, - 12 / 4]
     = [0, 1, 2, 3, 4, 5, 6, 7, 8, 9]"
  by (simp_all add: topk_row_def upt_12)

theorem returning_call_appends_entry_per_query_witness:
  "is_topk 10 [- 1 / 4, 0, 1 / 4, 2 / 4, 3 / 4, 4 / 4, 5 / 4, 6 / 4, 7 / 4, 8 / 4, 9 / 4, 10 / 4]
      (topk_row 10 [- 1 / 4, 0, 1 / 4, 2 / 4, 3 / 4, 4 / 4, 5 / 4, 6 / 4, 7 / 4, 8 / 4, 9 / 4, 10 / 4])
   \<and> params twelve_item_model = Some twelve_items \<and> biasc twelve_item_model = Some 1
   \<and> created_shapes 12 1 twelve_items \<and> shape (matrix_of [[1], [- 1 :: real]]) = [2, 1]
   \<and> (2::nat) \<noteq> 1 \<and> (10::nat) \<le> 12 \<and> 12 \<le> length (label twelve_item_model)
   \<and> (\<exists>scores. snd (full_sort_predict topk_row twelve_item_model (matrix_of [[1], [- 1]]))
          = Inr scores)
   \<and> pop_label (fst (full_sort_predict topk_row twelve_item_model (matrix_of [[1], [- 1]])))
       = [65, 45]
   \<and> list_all (\<lambda>op. \<not> is_load_other_parameter op)
         [Full_sort_predict (matrix_of [[1], [- 1]]), Cal_curr_pop, Cal_popular]
   \<and> length (pop_label twelve_item_model)
       \<le> length (pop_label (lifetime topk_row twelve_item_model
           [Full_sort_predict (matrix_of [[1], [- 1]]), Cal_curr_pop, Cal_popular]))
   \<and> pop_label (lifetime topk_row twelve_item_model
         [Full_sort_predict (matrix_of [[1], [- 1]]), Cal_curr_pop, Cal_popular]) = [65, 45]"
proof -
  let ?seq = "matrix_of [[1], [- 1 :: real]]"
  let ?ops = "[Full_sort_predict ?seq, Cal_curr_pop, Cal_popular]"
  have sel: "is_topk 10 row (topk_row 10 row)" if "10 \<le> length row" for row
    using that by (rule topk_row_is_topk)
  have valid: "\<forall>row. 10 \<le> length row \<longrightarrow> is_topk 10 row (topk_row 10 row)"
    using sel by blast
  have sel0: "is_topk 10 [- 1 / 4, 0, 1 / 4, 2 / 4, 3 / 4, 4 / 4, 5 / 4, 6 / 4, 7 / 4, 8 / 4, 9 / 4, 10 / 4]
      (topk_row 10 [- 1 / 4, 0, 1 / 4, 2 / 4, 3 / 4, 4 / 4, 5 / 4, 6 / 4, 7 / 4, 8 / 4, 9 / 4, 10 / 4])"
    by (rule sel) simp
  have W: "params twelve_item_model = Some twelve_items"
    and cc: "biasc twelve_item_model = Some 1"
    and lab: "label twelve_item_model = [0, 1, 2, 3, 4, 5, 6, 7, 8, 9, 10, 11]"
    and old: "pop_label twelve_item_model = []"
    by (simp_all add: twelve_item_model_def)
  have shapes: "created_shapes 12 1 twelve_items"
    by (simp add: created_shapes_def twelve_items_def matrix_of_def vector_of_def)
  have seq: "shape ?seq = [2, 1]" by (simp add: matrix_of_def)
  have B: "(2::nat) \<noteq> 1" and N: "(10::nat) \<le> 12" by simp_all
  have cover: "12 \<le> length (label twelve_item_model)" by (simp add: lab)
  have ops: "list_all (\<lambda>op. \<not> is_load_other_parameter op) ?ops" by simp
  note inst = returning_call_appends_entry_per_query
    [of topk_row twelve_item_model twelve_items 1 12 1 ?seq 2 ?ops, OF valid W cc shapes seq]
  note returns = inst [THEN conjunct2, THEN conjunct1, rule_format, OF B N cover]
  note never_shorter = inst [THEN conjunct2, THEN conjunct2, THEN conjunct2, rule_format, OF ops]
  have ex: "\<exists>scores. snd (full_sort_predict topk_row twelve_item_model ?seq) = Inr scores"
    by (rule returns)
  then obtain scores where ret: "snd (full_sort_predict topk_row twelve_item_model ?seq) = Inr scores" ..
  note returned = inst [THEN conjunct1, rule_format, OF ret]
  have sh: "shape scores = [2, 12]"
    by (rule returned [THEN conjunct2, THEN conjunct1])
  have els: "\<forall>q<2. \<forall>i<12. elem scores [q, i] = adjusted_score twelve_items 1 ?seq q i"
    by (rule returned [THEN conjunct2, THEN conjunct2, THEN conjunct1])
  obtain rows where r: "topk_indices topk_row 10 scores = Inr rows"
    "pop_label (fst (full_sort_predict topk_row twelve_item_model ?seq))
       = pop_label twelve_item_model
         @ map (\<lambda>i. sum_list (map ((!) (label twelve_item_model)) i)) rows"
    using returned [THEN conjunct2, THEN conjunct2, THEN conjunct2]
    by (elim exE conjE) (rule that)
  have row: "map (\<lambda>j. elem scores [q, j]) [0..<12]
      = map (\<lambda>j. adjusted_score twelve_items 1 ?seq q j) [0..<12]" if "q < 2" for q
    using els that by (intro map_cong) simp_all
  have "rows = map (\<lambda>q. topk_row 10 (map (\<lambda>j. elem scores [q, j]) [0..<12])) [0..<2]"
    using sh r(1) by (rule topk_indices_rows(3))
  then have "rows = [topk_row 10 (map (\<lambda>j. elem scores [0, j]) [0..<12]),
                     topk_row 10 (map (\<lambda>j. elem scores [1, j]) [0..<12])]"
    by (simp add: upt_2)
  moreover have "map (\<lambda>j. elem scores [0, j]) [0..<12]
      = [- 1 / 4, 0, 1 / 4, 2 / 4, 3 / 4, 4 / 4, 5 / 4, 6 / 4, 7 / 4, 8 / 4, 9 / 4, 10 / 4]"
    by (rule trans [OF row twelve_item_scores(1)]) simp
  moreover have "map (\<lambda>j. elem scores [1, j]) [0..<12]
      = [- 1 / 4, - 2 / 4, - 3 / 4, - 4 / 4, - 5 / 4, - 6 / 4, - 7 / 4, - 8 / 4, - 9 / 4,
         - 10 / 4, - 11 / 4, - 12 / 4]"
    by (rule trans [OF row twelve_item_scores(2)]) simp
  ultimately have rows: "rows = [[11, 10, 9, 8, 7, 6, 5, 4, 3, 2], [0, 1, 2, 3, 4, 5, 6, 7, 8, 9]]"
    by (simp only: twelve_item_selection)
  have entries: "pop_label (fst (full_sort_predict topk_row twelve_item_model ?seq)) = [65, 45]"
    unfolding r(2) old rows lab by simp
  have life: "length (pop_label twelve_item_model)
      \<le> length (pop_label (lifetime topk_row twelve_item_model ?ops))"
    by (rule never_shorter)
  have final: "pop_label (lifetime topk_row twelve_item_model ?ops) = [65, 45]"
    by (simp add: SASRecN_cal_popular_pop_label entries)
  from sel0 W cc shapes seq B N cover ex entries ops life final show ?thesis by (intro conjI)
qed

end
